theory Spec2Isabelle
  imports Main "HOL-Library.Sublist"
begin

section \<open>Python values and exceptions\<close>

text \<open>
  The replay harnesses (\<^verbatim>\<open>Agent_Misbehavior_Replay.py\<close> and \<^verbatim>\<open>FINTECH_ONLY.py\<close>) pass
  dynamically typed values around: the parameters of a tool call and the receipt of a
  decision are \<^verbatim>\<open>Dict[str, Any]\<close>. A parameter value is modelled as \<^verbatim>\<open>None\<close>, a boolean,
  an integer, a string or a float; receipts nest lists and dictionaries. Containers and
  objects of user-defined classes as parameter values are outside the model. A string
  is a list of code points below 256.

  A Python exception is a value of \<open>py_exception\<close>; a computation that may raise returns
  \<open>py_exception + 'a\<close>. \<open>PolicyUnavailable\<close> is the error the specification names; no
  statement of the source raises it.
\<close>

datatype py_exception =
  TypeError | ValueError | OverflowError | NotImplementedError | PolicyUnavailable

text \<open>
  A float is a finite double with the value \<open>m * 2 ^ e\<close>, an infinity with its sign
  (\<open>True\<close> for the negative one), or a nan. The model does no decimal conversion of
  doubles: a finite float comes with the string that \<^verbatim>\<open>repr\<close> prints for it.
\<close>

datatype pyfloat = Float_finite int int string | Float_inf bool | Float_nan

datatype scalar = PNone | PBool bool | PInt int | PStr string | PFloat pyfloat

datatype pyval =
    PyNone
  | PyBool bool
  | PyInt int
  | PyStr string
  | PyList "pyval list"
  | PyDict "(string \<times> pyval) list"

text \<open>A dictionary with string keys, in insertion order, as Python keeps it.\<close>

type_synonym pydict = "(string \<times> pyval) list"

fun dict_set :: "pydict \<Rightarrow> string \<Rightarrow> pyval \<Rightarrow> pydict" where
  "dict_set [] k v = [(k, v)]"
| "dict_set ((k', v') # d) k v = (if k' = k then (k, v) # d else (k', v') # dict_set d k v)"

text \<open>\<^verbatim>\<open>{**d, k1: v1, ...}\<close>: the items of \<open>d\<close>, then each further item assigned in order.\<close>

fun dict_merge :: "pydict \<Rightarrow> pydict \<Rightarrow> pydict" where
  "dict_merge d [] = d"
| "dict_merge d ((k, v) # e) = dict_merge (dict_set d k v) e"

definition dict_get :: "pydict \<Rightarrow> string \<Rightarrow> pyval option" where
  "dict_get d k = map_of d k"

subsection \<open>The builtins \<^verbatim>\<open>bool\<close>, \<^verbatim>\<open>str\<close> and \<^verbatim>\<open>int\<close> on parameter values\<close>

text \<open>\<^verbatim>\<open>bool\<close>: a float is false only when it is zero; a nan is true.\<close>

fun py_bool :: "scalar \<Rightarrow> bool" where
  "py_bool PNone = False"
| "py_bool (PBool b) = b"
| "py_bool (PInt n) = (n \<noteq> 0)"
| "py_bool (PStr s) = (s \<noteq> [])"
| "py_bool (PFloat (Float_finite m e r)) = (m \<noteq> 0)"
| "py_bool (PFloat (Float_inf neg)) = True"
| "py_bool (PFloat Float_nan) = True"

text \<open>
  The conversions between integers and strings refuse more than 4300 digits with a
  \<^verbatim>\<open>ValueError\<close>, as CPython does by default from version 3.11 on.
\<close>

definition max_str_digits :: nat where
  "max_str_digits = 4300"

text \<open>\<^verbatim>\<open>str\<close> of an integer: the decimal digits, most significant first, after the sign.\<close>

definition digit_char :: "nat \<Rightarrow> char" where
  "digit_char d = ''0123456789'' ! d"

fun str_of_nat :: "nat \<Rightarrow> string" where
  "str_of_nat n = (if n < 10 then [digit_char n] else str_of_nat (n div 10) @ [digit_char (n mod 10)])"

declare str_of_nat.simps [simp del]

definition str_of_int :: "int \<Rightarrow> py_exception + string" where
  "str_of_int i =
     (let ds = str_of_nat (nat \<bar>i\<bar>)
      in if length ds > max_str_digits then Inl ValueError
         else Inr (if i < 0 then CHR ''-'' # ds else ds))"

fun py_str :: "scalar \<Rightarrow> py_exception + string" where
  "py_str PNone = Inr ''None''"
| "py_str (PBool b) = Inr (if b then ''True'' else ''False'')"
| "py_str (PInt n) = str_of_int n"
| "py_str (PStr s) = Inr s"
| "py_str (PFloat (Float_finite m e r)) = Inr r"
| "py_str (PFloat (Float_inf neg)) = Inr (if neg then ''-inf'' else ''inf'')"
| "py_str (PFloat Float_nan) = Inr ''nan''"

text \<open>
  \<^verbatim>\<open>int(s)\<close> on a string: surrounding whitespace is dropped (the six ASCII whitespace
  characters, and the code points 0x85 and 0xA0, which are turned into spaces first),
  one sign is allowed, and the rest must be decimal digits, single underscores allowed
  between digits, and at most 4300 digits. Anything else raises \<^verbatim>\<open>ValueError\<close>.
\<close>

definition is_space :: "char \<Rightarrow> bool" where
  "is_space c = (c \<in> set [CHR '' '', CHR 0x09, CHR 0x0A, CHR 0x0B, CHR 0x0C, CHR 0x0D,
                            CHR 0x85, CHR 0xA0])"

definition is_digit :: "char \<Rightarrow> bool" where
  "is_digit c = (of_char CHR ''0'' \<le> (of_char c :: nat) \<and> (of_char c :: nat) \<le> of_char CHR ''9'')"

definition digit_val :: "char \<Rightarrow> nat" where
  "digit_val c = of_char c - of_char CHR ''0''"

definition strip :: "string \<Rightarrow> string" where
  "strip s = rev (dropWhile is_space (rev (dropWhile is_space s)))"

text \<open>
  \<open>parse_digits acc prev_digit s\<close>: \<open>prev_digit\<close> tells whether the character before \<open>s\<close>
  was a digit (an underscore must sit between two digits).
\<close>

fun parse_digits :: "nat \<Rightarrow> bool \<Rightarrow> string \<Rightarrow> nat option" where
  "parse_digits acc prev [] = (if prev then Some acc else None)"
| "parse_digits acc prev (c # cs) =
     (if is_digit c then parse_digits (acc * 10 + digit_val c) True cs
      else if c = CHR ''_'' \<and> prev \<and> cs \<noteq> [] then parse_digits acc False cs
      else None)"

text \<open>The digits and underscores after the sign, parsed and counted.\<close>

definition int_of_digits :: "string \<Rightarrow> nat option" where
  "int_of_digits body =
     (case parse_digits 0 False body of
        None \<Rightarrow> None
      | Some n \<Rightarrow> if length (filter is_digit body) > max_str_digits then None else Some n)"

definition int_of_str :: "string \<Rightarrow> py_exception + int" where
  "int_of_str s =
     (case strip s of
        [] \<Rightarrow> Inl ValueError
      | c # cs \<Rightarrow>
          if c = CHR ''-'' then (case int_of_digits cs of None \<Rightarrow> Inl ValueError | Some n \<Rightarrow> Inr (- int n))
          else if c = CHR ''+'' then (case int_of_digits cs of None \<Rightarrow> Inl ValueError | Some n \<Rightarrow> Inr (int n))
          else (case int_of_digits (c # cs) of None \<Rightarrow> Inl ValueError | Some n \<Rightarrow> Inr (int n)))"

text \<open>
  \<^verbatim>\<open>int\<close> of a finite float drops the fraction, towards zero; of an infinity it raises
  \<^verbatim>\<open>OverflowError\<close>, of a nan \<^verbatim>\<open>ValueError\<close>.
\<close>

definition float_trunc :: "int \<Rightarrow> int \<Rightarrow> int" where
  "float_trunc m e =
     (if 0 \<le> e then m * 2 ^ nat e else sgn m * (\<bar>m\<bar> div 2 ^ nat (- e)))"

fun py_int :: "scalar \<Rightarrow> py_exception + int" where
  "py_int PNone = Inl TypeError"
| "py_int (PBool b) = Inr (if b then 1 else 0)"
| "py_int (PInt n) = Inr n"
| "py_int (PStr s) = int_of_str s"
| "py_int (PFloat (Float_finite m e r)) = Inr (float_trunc m e)"
| "py_int (PFloat (Float_inf neg)) = Inl OverflowError"
| "py_int (PFloat Float_nan) = Inl ValueError"

section \<open>The recorded trace\<close>

datatype Decision = COMMIT | BLOCK | REQUIRE_APPROVAL | UNDO

text \<open>
  \<^verbatim>\<open>ToolCall\<close> and \<^verbatim>\<open>Approval\<close> are frozen dataclasses, the same in both harnesses. The
  fields \<^verbatim>\<open>action_id\<close> and \<^verbatim>\<open>method\<close> of \<^verbatim>\<open>Approval\<close> carry the prefix \<open>a_\<close> (the
  first is also a field of \<^verbatim>\<open>ToolCall\<close>, the second a keyword). The timestamps default to the clock at construction; here they are
  given.
\<close>

record ToolCall =
  action_id :: string
  actor :: string
  system :: string
  operation :: string
  params :: "string \<rightharpoonup> scalar"
  txn_id :: string
  created_at_ms :: int

record Approval =
  a_action_id :: string
  approved_by :: string
  role :: string
  a_method :: string
  approved_at_ms :: int

text \<open>\<^verbatim>\<open>a.__dict__\<close>: the instance attributes of an \<^verbatim>\<open>Approval\<close>, in field order.\<close>

definition Approval_dict :: "Approval \<Rightarrow> pydict" where
  "Approval_dict a =
     [(''action_id'', PyStr (a_action_id a)),
      (''approved_by'', PyStr (approved_by a)),
      (''role'', PyStr (role a)),
      (''method'', PyStr (a_method a)),
      (''approved_at_ms'', PyInt (approved_at_ms a))]"

section \<open>The systems simulator\<close>

text \<open>
  \<^verbatim>\<open>MockSystems\<close> keeps \<^verbatim>\<open>state\<close> (system, then external id, then record) and the
  idempotency table (action id to external id; \<^verbatim>\<open>idempotency\<close> in
  \<^verbatim>\<open>Agent_Misbehavior_Replay.py\<close>, \<^verbatim>\<open>action_to_external\<close> in \<^verbatim>\<open>FINTECH_ONLY.py\<close>).
  A stored record is the dictionary with the four keys \<^verbatim>\<open>operation\<close>, \<^verbatim>\<open>params\<close>,
  \<^verbatim>\<open>created_at_ms\<close>, \<^verbatim>\<open>deleted\<close>; it is never empty, so \<^verbatim>\<open>not rec\<close> holds exactly
  when the lookup found nothing.
\<close>

record ledger_record =
  rec_operation :: string
  rec_params :: "string \<rightharpoonup> scalar"
  rec_created_at_ms :: int
  deleted :: bool

record MockSystems =
  state :: "string \<rightharpoonup> (string \<rightharpoonup> ledger_record)"
  idempotency :: "string \<rightharpoonup> string"

definition MockSystems_init :: MockSystems where
  "MockSystems_init = \<lparr>state = Map.empty, idempotency = Map.empty\<rparr>"

text \<open>
  What the environment answers during one call: the ten hexadecimal characters taken from
  \<^verbatim>\<open>uuid.uuid4()\<close> and the reading of the clock in milliseconds. Both are read only
  when a new record is created.
\<close>

record draw =
  uuid_hex :: string
  now_ms :: int

definition new_id :: "string \<Rightarrow> draw \<Rightarrow> string" where
  "new_id sys d = sys @ '':'' @ uuid_hex d"

record exec_result =
  ok :: bool
  external_id :: string
  idempotent_replay :: bool

definition records_of :: "MockSystems \<Rightarrow> string \<Rightarrow> (string \<rightharpoonup> ledger_record)" where
  "records_of s sys = (case state s sys of None \<Rightarrow> Map.empty | Some m \<Rightarrow> m)"

definition execute_direct :: "draw \<Rightarrow> MockSystems \<Rightarrow> ToolCall \<Rightarrow> exec_result \<times> MockSystems" where
  "execute_direct d s call =
     (case idempotency s (action_id call) of
        Some ext_id \<Rightarrow> (\<lparr>ok = True, external_id = ext_id, idempotent_replay = True\<rparr>, s)
      | None \<Rightarrow>
          let ext_id = new_id (system call) d;
              r = \<lparr>rec_operation = operation call, rec_params = params call,
                   rec_created_at_ms = now_ms d, deleted = False\<rparr>
          in (\<lparr>ok = True, external_id = ext_id, idempotent_replay = False\<rparr>,
              s\<lparr>idempotency := (idempotency s)(action_id call \<mapsto> ext_id),
                state := (state s)(system call \<mapsto> (records_of s (system call))(ext_id \<mapsto> r))\<rparr>))"

text \<open>\<^verbatim>\<open>MockSystems.execute\<close> of \<^verbatim>\<open>FINTECH_ONLY.py\<close> has the same statements.\<close>

definition execute :: "draw \<Rightarrow> MockSystems \<Rightarrow> ToolCall \<Rightarrow> exec_result \<times> MockSystems" where
  "execute d s call =
     (case idempotency s (action_id call) of
        Some ext \<Rightarrow> (\<lparr>ok = True, external_id = ext, idempotent_replay = True\<rparr>, s)
      | None \<Rightarrow>
          let ext = new_id (system call) d;
              r = \<lparr>rec_operation = operation call, rec_params = params call,
                   rec_created_at_ms = now_ms d, deleted = False\<rparr>
          in (\<lparr>ok = True, external_id = ext, idempotent_replay = False\<rparr>,
              s\<lparr>idempotency := (idempotency s)(action_id call \<mapsto> ext),
                state := (state s)(system call \<mapsto> (records_of s (system call))(ext \<mapsto> r))\<rparr>))"

definition get_record :: "MockSystems \<Rightarrow> string \<Rightarrow> string \<Rightarrow> ledger_record option" where
  "get_record s sys ext = records_of s sys ext"

text \<open>
  \<^verbatim>\<open>undo\<close> returns a dictionary: \<^verbatim>\<open>{"ok": False, "error": "record_not_found"}\<close> when the
  record is missing, otherwise it sets \<^verbatim>\<open>deleted\<close> in place and returns
  \<^verbatim>\<open>{"ok": True, "undo_id": "undo:" + external_id}\<close>.
\<close>

definition undo :: "MockSystems \<Rightarrow> ToolCall \<Rightarrow> string \<Rightarrow> pydict \<times> MockSystems" where
  "undo s call committed_external_id =
     (case records_of s (system call) committed_external_id of
        None \<Rightarrow> ([(''ok'', PyBool False), (''error'', PyStr ''record_not_found'')], s)
      | Some r \<Rightarrow>
          ([(''ok'', PyBool True), (''undo_id'', PyStr (''undo:'' @ committed_external_id))],
           s\<lparr>state := (state s)(system call \<mapsto>
                (records_of s (system call))(committed_external_id \<mapsto> r\<lparr>deleted := True\<rparr>))\<rparr>))"

section \<open>The hook of \<^verbatim>\<open>Agent_Misbehavior_Replay.py\<close>\<close>

record NuvallaEval =
  decision :: Decision
  message :: string
  commit_allowed :: bool
  required_approvals :: int
  receipt :: pydict

record NuvallaHook =
  approvals_by_action :: "string \<rightharpoonup> Approval list"

definition NuvallaHook_init :: NuvallaHook where
  "NuvallaHook_init = \<lparr>approvals_by_action = Map.empty\<rparr>"

text \<open>\<^verbatim>\<open>self._approvals_by_action.get(action_id, [])\<close>\<close>

definition approvals_for :: "NuvallaHook \<Rightarrow> string \<Rightarrow> Approval list" where
  "approvals_for h k = (case approvals_by_action h k of None \<Rightarrow> [] | Some xs \<Rightarrow> xs)"

text \<open>\<^verbatim>\<open>self._approvals_by_action.setdefault(approval.action_id, []).append(approval)\<close>\<close>

definition approve :: "NuvallaHook \<Rightarrow> Approval \<Rightarrow> NuvallaHook" where
  "approve h approval =
     h\<lparr>approvals_by_action := (approvals_by_action h)(a_action_id approval \<mapsto>
          (case approvals_by_action h (a_action_id approval) of None \<Rightarrow> [] | Some xs \<Rightarrow> xs) @ [approval])\<rparr>"

text \<open>\<^verbatim>\<open>call.params.get(key, default)\<close>\<close>

definition params_get :: "ToolCall \<Rightarrow> string \<Rightarrow> scalar \<Rightarrow> scalar" where
  "params_get call k dflt = (case params call k of None \<Rightarrow> dflt | Some v \<Rightarrow> v)"

text \<open>\<^verbatim>\<open>to.split("@")[-1] if "@" in to else ""\<close>: what follows the last \<^verbatim>\<open>@\<close>.\<close>

definition email_domain :: "string \<Rightarrow> string" where
  "email_domain to =
     (if CHR ''@'' \<in> set to then rev (takeWhile (\<lambda>c. c \<noteq> CHR ''@'') (rev to)) else [])"

text \<open>
  \<^verbatim>\<open>NuvallaHook.evaluate\<close>, the demonstration policy. The method reads
  \<^verbatim>\<open>self._approvals_by_action\<close> with \<^verbatim>\<open>get\<close> and assigns to nothing, so the model
  returns no new hook. \<^verbatim>\<open>int(...)\<close> raises on an amount that is not a number, and the
  formatting of an integer of more than 4300 digits raises as well, in the message of a
  payment and in \<^verbatim>\<open>str(...)\<close> of the addressee.
\<close>

definition evaluate :: "NuvallaHook \<Rightarrow> ToolCall \<Rightarrow> py_exception + NuvallaEval" where
  "evaluate h call =
     (let approvals = approvals_for h (action_id call) in
      if system call = ''stripe'' \<and> operation call = ''payment.execute'' then
        (case py_int (params_get call ''amount_usd'' (PInt 0)) of
           Inl e \<Rightarrow> Inl e
         | Inr amt \<Rightarrow>
             (case str_of_int amt of
                Inl e \<Rightarrow> Inl e
              | Inr amt_str \<Rightarrow>
                  if amt > 10000 \<and> approvals = [] then
                    Inr \<lparr>decision = REQUIRE_APPROVAL,
                         message = ''Payment $'' @ amt_str @ '' requires CFO approval'',
                         commit_allowed = False,
                         required_approvals = 1,
                         receipt = [(''policy'', PyStr ''payment_threshold''), (''amount_usd'', PyInt amt)]\<rparr>
                  else
                    Inr \<lparr>decision = COMMIT,
                         message = ''Payment $'' @ amt_str @ '' allowed (policy ok)'',
                         commit_allowed = True,
                         required_approvals = 0,
                         receipt = [(''policy'', PyStr ''payment_threshold''), (''amount_usd'', PyInt amt),
                                    (''approvals'', PyList (map (\<lambda>a. PyDict (Approval_dict a)) approvals))]\<rparr>))
      else if system call = ''netsuite'' \<and> operation call = ''vendor.create'' then
        (if \<not> py_bool (params_get call ''kyc_passed'' (PBool False)) then
           Inr \<lparr>decision = BLOCK,
                message = ''Vendor creation blocked: KYC not passed'',
                commit_allowed = False,
                required_approvals = 0,
                receipt = [(''policy'', PyStr ''vendor_kyc_required'')]\<rparr>
         else
           Inr \<lparr>decision = COMMIT,
                message = ''Vendor creation allowed: KYC passed'',
                commit_allowed = True,
                required_approvals = 0,
                receipt = [(''policy'', PyStr ''vendor_kyc_required'')]\<rparr>)
      else if system call = ''m365'' \<and> operation call = ''email.send'' then
        (case py_str (params_get call ''to'' (PStr [])) of
           Inl e \<Rightarrow> Inl e
         | Inr to \<Rightarrow>
            (let contains_phi = py_bool (params_get call ''contains_phi'' (PBool False));
                 allow_domain = ''acmefinco.com'';
                 dom = email_domain to
             in if contains_phi \<and> dom \<noteq> allow_domain then
                  Inr \<lparr>decision = BLOCK,
                       message = ''Email blocked: external PHI (HIPAA rule)'',
                       commit_allowed = False,
                       required_approvals = 0,
                       receipt = [(''policy'', PyStr ''hipaa_no_external_phi''), (''to'', PyStr to)]\<rparr>
                else if dom \<noteq> allow_domain then
                  Inr \<lparr>decision = BLOCK,
                       message = ''Email blocked: domain not allowlisted'',
                       commit_allowed = False,
                       required_approvals = 0,
                       receipt = [(''policy'', PyStr ''email_allowlist''), (''to'', PyStr to)]\<rparr>
                else
                  Inr \<lparr>decision = COMMIT,
                       message = ''Email allowed (domain allowlist ok)'',
                       commit_allowed = True,
                       required_approvals = 0,
                       receipt = [(''policy'', PyStr ''email_allowlist''), (''to'', PyStr to)]\<rparr>))
      else if system call = ''ehr'' \<and> operation call = ''medication.order'' then
        (if approvals = [] then
           Inr \<lparr>decision = REQUIRE_APPROVAL,
                message = ''Medication order requires attending sign-off'',
                commit_allowed = False,
                required_approvals = 1,
                receipt = [(''policy'', PyStr ''ehr_attending_signoff'')]\<rparr>
         else
           Inr \<lparr>decision = COMMIT,
                message = ''Medication order approved and allowed'',
                commit_allowed = True,
                required_approvals = 0,
                receipt = [(''policy'', PyStr ''ehr_attending_signoff''),
                           (''approvals'', PyList (map (\<lambda>a. PyDict (Approval_dict a)) approvals))]\<rparr>)
      else
        Inr \<lparr>decision = COMMIT,
             message = ''Allowed (no matching restrictive policy)'',
             commit_allowed = True,
             required_approvals = 0,
             receipt = [(''policy'', PyStr ''default_allow'')]\<rparr>)"

section \<open>Replay, direct and governed\<close>

record ScenarioTrace =
  name :: string
  domain :: string
  story :: string
  tool_calls :: "ToolCall list"
  approvals :: "Approval list"

text \<open>
  The replay functions print and return nothing. The model returns what they print for
  each call, the systems object as they leave it, and the exception that ended the loop,
  if one did. \<open>env i\<close> is what the environment answers during the \<open>i\<close>-th call.
\<close>

fun run_trace_direct ::
  "(nat \<Rightarrow> draw) \<Rightarrow> nat \<Rightarrow> MockSystems \<Rightarrow> ToolCall list \<Rightarrow> exec_result list \<times> MockSystems" where
  "run_trace_direct env i s [] = ([], s)"
| "run_trace_direct env i s (call # calls) =
     (let (result, s1) = execute_direct (env i) s call;
          (results, s2) = run_trace_direct env (Suc i) s1 calls
      in (result # results, s2))"

text \<open>
  The body of the governed loop after the evaluation (step 2 of
  \<^verbatim>\<open>run_trace_with_nuvalla\<close>): the gate, the execution, and the compensation when the
  call carries \<^verbatim>\<open>force_post_commit_failure\<close>. It returns the evaluation and the execution
  result that are printed.
\<close>

definition gate_and_execute ::
  "draw \<Rightarrow> MockSystems \<Rightarrow> ToolCall \<Rightarrow> NuvallaEval \<Rightarrow> (NuvallaEval \<times> exec_result option) \<times> MockSystems" where
  "gate_and_execute d s call evalr =
     (if decision evalr = COMMIT \<and> commit_allowed evalr then
        (let (exec_res, s1) = execute_direct d s call in
         if py_bool (params_get call ''force_post_commit_failure'' (PBool False)) then
           (let (undo_res, s2) = undo s1 call (external_id exec_res) in
            ((\<lparr>decision = UNDO,
               message = ''Post-commit failure detected; compensating undo executed'',
               commit_allowed = False,
               required_approvals = 0,
               receipt = dict_merge (receipt evalr)
                           [(''post_commit_failure'', PyBool True), (''undo'', PyDict undo_res)]\<rparr>,
              Some exec_res), s2))
         else ((evalr, Some exec_res), s1))
      else ((evalr, None), s))"

text \<open>
  One pass of the loop for a hook whose \<^verbatim>\<open>evaluate\<close> is \<open>ev\<close>. The call to
  \<^verbatim>\<open>hook.evaluate\<close> is not inside a \<^verbatim>\<open>try\<close>: an exception leaves the function.
\<close>

definition nuvalla_step ::
  "(ToolCall \<Rightarrow> py_exception + NuvallaEval) \<Rightarrow> draw \<Rightarrow> MockSystems \<Rightarrow> ToolCall \<Rightarrow>
     py_exception + ((NuvallaEval \<times> exec_result option) \<times> MockSystems)" where
  "nuvalla_step ev d s call =
     (case ev call of Inl e \<Rightarrow> Inl e | Inr evalr \<Rightarrow> Inr (gate_and_execute d s call evalr))"

fun nuvalla_steps ::
  "(ToolCall \<Rightarrow> py_exception + NuvallaEval) \<Rightarrow> (nat \<Rightarrow> draw) \<Rightarrow> nat \<Rightarrow> MockSystems \<Rightarrow> ToolCall list \<Rightarrow>
     (NuvallaEval \<times> exec_result option) list \<times> MockSystems \<times> py_exception option" where
  "nuvalla_steps ev env i s [] = ([], s, None)"
| "nuvalla_steps ev env i s (call # calls) =
     (case nuvalla_step ev (env i) s call of
        Inl e \<Rightarrow> ([], s, Some e)
      | Inr (out, s1) \<Rightarrow>
          (let (outs, s2, err) = nuvalla_steps ev env (Suc i) s1 calls in (out # outs, s2, err)))"

definition run_trace_with_nuvalla ::
  "(nat \<Rightarrow> draw) \<Rightarrow> ScenarioTrace \<Rightarrow> MockSystems \<Rightarrow> NuvallaHook \<Rightarrow>
     NuvallaHook \<times> (NuvallaEval \<times> exec_result option) list \<times> MockSystems \<times> py_exception option" where
  "run_trace_with_nuvalla env trace systems hook =
     (let hook1 = foldl approve hook (approvals trace)
      in (hook1, nuvalla_steps (evaluate hook1) env 0 systems (tool_calls trace)))"

section \<open>The replay runner of \<^verbatim>\<open>FINTECH_ONLY.py\<close>\<close>

text \<open>
  The names of this file that clash with the ones above carry the prefix \<open>F\<close> or \<open>r_\<close>.
  Its \<^verbatim>\<open>ToolCall\<close>, \<^verbatim>\<open>Approval\<close> and \<^verbatim>\<open>MockSystems\<close> are the ones above.
\<close>

datatype FDecision = F_COMMIT | F_BLOCK | F_PENDING | F_UNDO

record NuvallaReceipt =
  r_decision :: FDecision
  status :: string
  r_message :: string
  r_receipt :: pydict

record FScenarioTrace =
  f_name :: string
  f_story :: string
  f_tool_calls :: "ToolCall list"
  approvals_timeline :: "Approval list"

text \<open>
  \<^verbatim>\<open>NuvallaAdapter\<close> is the class the user of the harness fills in. An adapter is modelled
  by its two methods over a state \<open>'ad\<close> of its own; a method may raise, and returns the
  adapter state it leaves behind in either case.
\<close>

record 'ad NuvallaAdapter =
  submit_approval :: "'ad \<Rightarrow> Approval \<Rightarrow> py_exception option \<times> 'ad"
  intercept :: "'ad \<Rightarrow> ToolCall \<Rightarrow> (py_exception + NuvallaReceipt) \<times> 'ad"

text \<open>The class as the source has it: \<^verbatim>\<open>pass\<close>, and \<^verbatim>\<open>raise NotImplementedError\<close>.\<close>

definition NuvallaAdapter_stub :: "'ad NuvallaAdapter" where
  "NuvallaAdapter_stub =
     \<lparr>submit_approval = (\<lambda>ad approval. (None, ad)),
      intercept = (\<lambda>ad call. (Inl NotImplementedError, ad))\<rparr>"

text \<open>The direct baseline: every call is executed.\<close>

fun run_baseline ::
  "(nat \<Rightarrow> draw) \<Rightarrow> nat \<Rightarrow> MockSystems \<Rightarrow> ToolCall list \<Rightarrow> exec_result list \<times> MockSystems" where
  "run_baseline env i s [] = ([], s)"
| "run_baseline env i s (call # calls) =
     (let (res, s1) = execute (env i) s call;
          (results, s2) = run_baseline env (Suc i) s1 calls
      in (res # results, s2))"

subsection \<open>The schedule of approvals\<close>

text \<open>\<^verbatim>\<open>int(v)\<close> on the value of an attribute.\<close>

fun pyval_int :: "pyval \<Rightarrow> py_exception + int" where
  "pyval_int (PyBool b) = Inr (if b then 1 else 0)"
| "pyval_int (PyInt n) = Inr n"
| "pyval_int (PyStr s) = int_of_str s"
| "pyval_int _ = Inl TypeError"

text \<open>
  \<^verbatim>\<open>int(getattr(a, "deliver_after_step", 0)) if hasattr(a, "deliver_after_step") else 0\<close>.
  The class \<^verbatim>\<open>Approval\<close> defines no attribute of that name, so the lookup finds what the
  instance dictionary holds.
\<close>

definition deliver_after :: "Approval \<Rightarrow> py_exception + int" where
  "deliver_after a =
     (if dict_get (Approval_dict a) ''deliver_after_step'' \<noteq> None
      then pyval_int (case dict_get (Approval_dict a) ''deliver_after_step'' of None \<Rightarrow> PyInt 0 | Some v \<Rightarrow> v)
      else Inr 0)"

fun approvals_schedule :: "Approval list \<Rightarrow> py_exception + (int \<times> Approval) list" where
  "approvals_schedule [] = Inr []"
| "approvals_schedule (a # as) =
     (case deliver_after a of
        Inl e \<Rightarrow> Inl e
      | Inr k \<Rightarrow> (case approvals_schedule as of Inl e \<Rightarrow> Inl e | Inr rest \<Rightarrow> Inr ((k, a) # rest)))"

text \<open>\<^verbatim>\<open>approvals_by_step.setdefault(step_idx, []).append(appr)\<close>, for each pair in order.\<close>

fun approvals_by_step :: "(int \<rightharpoonup> Approval list) \<Rightarrow> (int \<times> Approval) list \<Rightarrow> (int \<rightharpoonup> Approval list)" where
  "approvals_by_step m [] = m"
| "approvals_by_step m ((step_idx, appr) # sched) =
     approvals_by_step (m(step_idx \<mapsto> (case m step_idx of None \<Rightarrow> [] | Some xs \<Rightarrow> xs) @ [appr])) sched"

text \<open>\<^verbatim>\<open>approvals_by_step.get(k, [])\<close>\<close>

definition at_step :: "(int \<rightharpoonup> Approval list) \<Rightarrow> int \<Rightarrow> Approval list" where
  "at_step m k = (case m k of None \<Rightarrow> [] | Some xs \<Rightarrow> xs)"

subsection \<open>The governed run\<close>

text \<open>
  What the run does to the adapter, in order: the calls of \<^verbatim>\<open>submit_approval\<close> and of
  \<^verbatim>\<open>intercept\<close> (each is printed just before). The run state collects this log, the
  receipt and execution result printed for each call, the systems object, the adapter,
  and the exception that ended the run.
\<close>

datatype event = Approval_submitted Approval | Call_intercepted ToolCall

record 'ad run_state =
  log :: "event list"
  printed :: "(NuvallaReceipt \<times> exec_result option) list"
  systems_after :: MockSystems
  adapter_state :: 'ad
  raised :: "py_exception option"

fun deliver :: "'ad NuvallaAdapter \<Rightarrow> Approval list \<Rightarrow> 'ad run_state \<Rightarrow> 'ad run_state" where
  "deliver A [] st = st"
| "deliver A (a # as) st =
     (case submit_approval A (adapter_state st) a of
        (Some e, ad1) \<Rightarrow>
          st\<lparr>log := log st @ [Approval_submitted a], adapter_state := ad1, raised := Some e\<rparr>
      | (None, ad1) \<Rightarrow>
          deliver A as (st\<lparr>log := log st @ [Approval_submitted a], adapter_state := ad1\<rparr>))"

text \<open>
  Step 2 of the loop body: the commit only on \<^verbatim>\<open>COMMIT\<close> with status \<^verbatim>\<open>success\<close>, and
  the undo when the call carries \<^verbatim>\<open>force_post_commit_failure\<close>. The result of the undo
  is dropped; the receipt stays the adapter's.
\<close>

definition commit_if_allowed ::
  "draw \<Rightarrow> MockSystems \<Rightarrow> ToolCall \<Rightarrow> NuvallaReceipt \<Rightarrow> exec_result option \<times> MockSystems" where
  "commit_if_allowed d s call rcpt =
     (if r_decision rcpt = F_COMMIT \<and> status rcpt = ''success'' then
        (let (commit_res, s1) = execute d s call in
         if py_bool (params_get call ''force_post_commit_failure'' (PBool False)) then
           (let (undo_res, s2) = undo s1 call (external_id commit_res) in (Some commit_res, s2))
         else (Some commit_res, s1))
      else (None, s))"

text \<open>
  \<^verbatim>\<open>for idx, call in enumerate(trace.tool_calls, start=1)\<close>: \<open>idx\<close> is the number of the
  call, counted from one; the approvals filed under \<open>idx - 1\<close> are delivered first.
\<close>

fun fintech_steps ::
  "'ad NuvallaAdapter \<Rightarrow> (int \<rightharpoonup> Approval list) \<Rightarrow> (nat \<Rightarrow> draw) \<Rightarrow> int \<Rightarrow> ToolCall list \<Rightarrow>
     'ad run_state \<Rightarrow> 'ad run_state" where
  "fintech_steps A by_step env idx [] st = st"
| "fintech_steps A by_step env idx (call # calls) st =
     (let st1 = deliver A (at_step by_step (idx - 1)) st in
      if raised st1 \<noteq> None then st1
      else
        (case intercept A (adapter_state st1) call of
           (Inl e, ad2) \<Rightarrow>
             st1\<lparr>log := log st1 @ [Call_intercepted call], adapter_state := ad2, raised := Some e\<rparr>
         | (Inr rcpt, ad2) \<Rightarrow>
             (let (commit_res, s2) = commit_if_allowed (env (nat (idx - 1))) (systems_after st1) call rcpt
              in fintech_steps A by_step env (idx + 1) calls
                   (st1\<lparr>log := log st1 @ [Call_intercepted call],
                       printed := printed st1 @ [(rcpt, commit_res)],
                       systems_after := s2,
                       adapter_state := ad2\<rparr>))))"

text \<open>
  The governed part of the run of one trace, from the schedule on: a fresh
  \<^verbatim>\<open>MockSystems\<close>, the index, the loop, and the approvals filed under the number of
  calls, delivered after the last one.
\<close>

definition replay_schedule ::
  "'ad NuvallaAdapter \<Rightarrow> (nat \<Rightarrow> draw) \<Rightarrow> (int \<times> Approval) list \<Rightarrow> ToolCall list \<Rightarrow> 'ad \<Rightarrow> 'ad run_state" where
  "replay_schedule A env sched calls ad =
     (let by_step = approvals_by_step Map.empty sched;
          st = fintech_steps A by_step env 1 calls
                 \<lparr>log = [], printed = [], systems_after = MockSystems_init,
                  adapter_state = ad, raised = None\<rparr>
      in if raised st \<noteq> None then st
         else deliver A (at_step by_step (int (length calls))) st)"

definition run_fintech_replay ::
  "'ad NuvallaAdapter \<Rightarrow> (nat \<Rightarrow> draw) \<Rightarrow> FScenarioTrace \<Rightarrow> 'ad \<Rightarrow> 'ad run_state" where
  "run_fintech_replay A env trace ad =
     (case approvals_schedule (approvals_timeline trace) of
        Inl e \<Rightarrow> \<lparr>log = [], printed = [], systems_after = MockSystems_init,
                  adapter_state = ad, raised = Some e\<rparr>
      | Inr sched \<Rightarrow> replay_schedule A env sched (f_tool_calls trace) ad)"

subsection \<open>The order of delivery, as specified\<close>

text \<open>
  The approvals scheduled at index \<open>k\<close>, in the order in which they were inserted, and
  the order of events the specification asks for: before each call the approvals
  scheduled at its index, counted from \<open>k\<close>; after the last call those scheduled at the
  index that follows.
\<close>

definition due :: "(int \<times> Approval) list \<Rightarrow> int \<Rightarrow> Approval list" where
  "due sched k = map snd (filter (\<lambda>p. fst p = k) sched)"

fun delivery_order :: "(int \<times> Approval) list \<Rightarrow> int \<Rightarrow> ToolCall list \<Rightarrow> event list" where
  "delivery_order sched k [] = map Approval_submitted (due sched k)"
| "delivery_order sched k (call # calls) =
     map Approval_submitted (due sched k) @ Call_intercepted call # delivery_order sched (k + 1) calls"

text \<open>
  What a sequence of events does to an adapter that starts in the state \<open>ad\<close>: each
  approval is passed to \<^verbatim>\<open>submit_approval\<close> and each call to \<^verbatim>\<open>intercept\<close>, in order, on
  the state the event before left, up to the first method that raises. The result is
  the events carried out (the raising one included), the receipts \<^verbatim>\<open>intercept\<close> returned,
  the state of the adapter, and the exception.
\<close>

fun adapter_run ::
  "'ad NuvallaAdapter \<Rightarrow> 'ad \<Rightarrow> event list \<Rightarrow>
     event list \<times> NuvallaReceipt list \<times> 'ad \<times> py_exception option" where
  "adapter_run A ad [] = ([], [], ad, None)"
| "adapter_run A ad (Approval_submitted a # evs) =
     (case submit_approval A ad a of
        (Some e, ad1) \<Rightarrow> ([Approval_submitted a], [], ad1, Some e)
      | (None, ad1) \<Rightarrow>
          (case adapter_run A ad1 evs of
             (evs', rs, ad2, err) \<Rightarrow> (Approval_submitted a # evs', rs, ad2, err)))"
| "adapter_run A ad (Call_intercepted c # evs) =
     (case intercept A ad c of
        (Inl e, ad1) \<Rightarrow> ([Call_intercepted c], [], ad1, Some e)
      | (Inr rcpt, ad1) \<Rightarrow>
          (case adapter_run A ad1 evs of
             (evs', rs, ad2, err) \<Rightarrow> (Call_intercepted c # evs', rcpt # rs, ad2, err)))"

text \<open>
  What a run leaves of the adapter: the log, the receipts printed, the state of the
  adapter, the exception.
\<close>

definition adapter_view ::
  "'ad run_state \<Rightarrow> event list \<times> NuvallaReceipt list \<times> 'ad \<times> py_exception option" where
  "adapter_view st = (log st, map fst (printed st), adapter_state st, raised st)"

section \<open>The recorded traces used as examples\<close>

text \<open>Calls and approvals of \<^verbatim>\<open>build_traces\<close>, with fixed timestamps and a fixed environment.\<close>

definition env0 :: "nat \<Rightarrow> draw" where
  "env0 i = \<lparr>uuid_hex = ''0123456789'', now_ms = 1700000000000 + int i\<rparr>"

definition call_fin_t1_vendor :: ToolCall where
  "call_fin_t1_vendor =
     \<lparr>action_id = ''fin_t1_vendor'', actor = ''ap_agent'', system = ''netsuite'',
      operation = ''vendor.create'',
      params = [''vendor_name'' \<mapsto> PStr ''ShadyCo LLC'', ''kyc_passed'' \<mapsto> PBool False],
      txn_id = ''txn_fin_1001'', created_at_ms = 1700000000000\<rparr>"

definition call_fin_t2_pay :: ToolCall where
  "call_fin_t2_pay =
     \<lparr>action_id = ''fin_t2_pay'', actor = ''finance_agent'', system = ''stripe'',
      operation = ''payment.execute'',
      params = [''amount_usd'' \<mapsto> PInt 25000, ''to_vendor'' \<mapsto> PStr ''DataProviderInc'',
                ''invoice_id'' \<mapsto> PStr ''INV-9888''],
      txn_id = ''txn_fin_2002'', created_at_ms = 1700000000000\<rparr>"

definition approval_fin_t2_pay :: Approval where
  "approval_fin_t2_pay =
     \<lparr>a_action_id = ''fin_t2_pay'', approved_by = ''cfo@acmefinco.com'', role = ''CFO'',
      a_method = ''dashboard'', approved_at_ms = 1700000000000\<rparr>"

definition approval_hlth_t1_med :: Approval where
  "approval_hlth_t1_med =
     \<lparr>a_action_id = ''hlth_t1_med'', approved_by = ''attending_md@hospital.org'',
      role = ''AttendingMD'', a_method = ''ehr_signoff'', approved_at_ms = 1700000000000\<rparr>"

definition call_ins_t1_pay :: ToolCall where
  "call_ins_t1_pay =
     \<lparr>action_id = ''ins_t1_pay'', actor = ''claims_agent'', system = ''stripe'',
      operation = ''payment.execute'',
      params = [''amount_usd'' \<mapsto> PInt 2400, ''to_vendor'' \<mapsto> PStr ''MemberReimbursement'',
                ''claim_id'' \<mapsto> PStr ''CLM-55210'', ''force_post_commit_failure'' \<mapsto> PBool True],
      txn_id = ''txn_ins_4004'', created_at_ms = 1700000000000\<rparr>"

definition call_fin_t5_pay :: ToolCall where
  "call_fin_t5_pay =
     \<lparr>action_id = ''fin_t5_pay'', actor = ''finance_agent'', system = ''stripe'',
      operation = ''payment.execute'',
      params = [''amount_usd'' \<mapsto> PInt 850, ''to_vendor'' \<mapsto> PStr ''CloudHostingCo'',
                ''invoice_id'' \<mapsto> PStr ''INV-9231''],
      txn_id = ''txn_fin_5005'', created_at_ms = 1700000000000\<rparr>"

text \<open>A payment whose amount is not a number: \<^verbatim>\<open>int("18,750")\<close> raises \<^verbatim>\<open>ValueError\<close>.\<close>

definition call_malformed_amount :: ToolCall where
  "call_malformed_amount =
     \<lparr>action_id = ''fin_bad_pay'', actor = ''ap_agent'', system = ''stripe'',
      operation = ''payment.execute'',
      params = [''amount_usd'' \<mapsto> PStr ''18,750'', ''to_vendor'' \<mapsto> PStr ''ShadyCo LLC''],
      txn_id = ''txn_fin_1001'', created_at_ms = 1700000000000\<rparr>"


text \<open>
  Two calls that share an action id: a vendor creation in \<^verbatim>\<open>netsuite\<close>, and a payment in
  \<^verbatim>\<open>stripe\<close> that carries \<^verbatim>\<open>force_post_commit_failure\<close>; and the trace that replays them.
\<close>

definition call_dup_vendor :: ToolCall where
  "call_dup_vendor =
     \<lparr>action_id = ''dup'', actor = ''ap_agent'', system = ''netsuite'',
      operation = ''vendor.create'',
      params = [''vendor_name'' \<mapsto> PStr ''CloudHostingCo'', ''kyc_passed'' \<mapsto> PBool True],
      txn_id = ''txn_dup_1'', created_at_ms = 1700000000000\<rparr>"

definition call_dup_pay :: ToolCall where
  "call_dup_pay =
     \<lparr>action_id = ''dup'', actor = ''finance_agent'', system = ''stripe'',
      operation = ''payment.execute'',
      params = [''amount_usd'' \<mapsto> PInt 850, ''force_post_commit_failure'' \<mapsto> PBool True],
      txn_id = ''txn_dup_2'', created_at_ms = 1700000000000\<rparr>"

definition trace_dup :: ScenarioTrace where
  "trace_dup =
     \<lparr>name = ''One action id, two systems'', domain = ''fintech'',
      story = ''A vendor creation, then a payment under the same action id'',
      tool_calls = [call_dup_vendor, call_dup_pay], approvals = []\<rparr>"

text \<open>What \<open>evaluate\<close> returns for \<open>call_ins_t1_pay\<close> when no approval is recorded.\<close>

definition commit_ins_t1_pay :: NuvallaEval where
  "commit_ins_t1_pay =
     \<lparr>decision = COMMIT, message = ''Payment $2400 allowed (policy ok)'', commit_allowed = True,
      required_approvals = 0,
      receipt = [(''policy'', PyStr ''payment_threshold''), (''amount_usd'', PyInt 2400),
                 (''approvals'', PyList [])]\<rparr>"

text \<open>
  An adapter filled in for the examples: it keeps the approvals it is sent and answers
  \<^verbatim>\<open>COMMIT\<close> with status \<^verbatim>\<open>success\<close> to every call.
\<close>

definition adapter_commit_all :: "Approval list NuvallaAdapter" where
  "adapter_commit_all =
     \<lparr>submit_approval = (\<lambda>ad approval. (None, ad @ [approval])),
      intercept = (\<lambda>ad call.
        (Inr \<lparr>r_decision = F_COMMIT, status = ''success'', r_message = ''ok'', r_receipt = []\<rparr>, ad))\<rparr>"

text \<open>A trace of \<^verbatim>\<open>FINTECH_ONLY.py\<close> with the one payment that carries the flag.\<close>

definition trace_flagged_payment :: FScenarioTrace where
  "trace_flagged_payment =
     \<lparr>f_name = ''Payment with a post-commit failure'', f_story = ''One payment, then its undo'',
      f_tool_calls = [call_ins_t1_pay], approvals_timeline = []\<rparr>"

text \<open>A schedule over two calls, and a trace with the same calls and two approvals.\<close>

definition schedule_example :: "(int \<times> Approval) list" where
  "schedule_example =
     [(0, approval_fin_t2_pay), (1, approval_hlth_t1_med), (2, approval_fin_t2_pay),
      (0, approval_hlth_t1_med)]"

definition trace_example :: FScenarioTrace where
  "trace_example =
     \<lparr>f_name = ''Large payment, then a small one'', f_story = ''Two payments and two approvals'',
      f_tool_calls = [call_fin_t2_pay, call_fin_t5_pay],
      approvals_timeline = [approval_fin_t2_pay, approval_hlth_t1_med]\<rparr>"

text \<open>The calls among the events, in order.\<close>

fun intercepted_calls :: "event list \<Rightarrow> ToolCall list" where
  "intercepted_calls [] = []"
| "intercepted_calls (Approval_submitted a # evs) = intercepted_calls evs"
| "intercepted_calls (Call_intercepted c # evs) = c # intercepted_calls evs"

section \<open>Properties of the ledger, the approvals and the governed step\<close>


lemma run_replay:
  "idempotency s a = Some ext \<Longrightarrow> \<forall>c \<in> set calls. action_id c = a \<Longrightarrow>
   run_trace_direct env i s calls =
     (replicate (length calls) \<lparr>ok = True, external_id = ext, idempotent_replay = True\<rparr>, s)"
  by (induction calls arbitrary: i) (simp_all add: execute_direct_def)

lemma execute_eq: "execute d s call = execute_direct d s call"
  by (simp add: execute_def execute_direct_def)

lemma run_baseline_eq: "run_baseline env i s calls = run_trace_direct env i s calls"
  by (induction calls arbitrary: i s) (simp_all add: execute_eq)

lemma execute_direct_fresh:
  "idempotency s (action_id call) = None \<Longrightarrow>
   execute_direct d s call =
      (\<lparr>ok = True, external_id = new_id (system call) d, idempotent_replay = False\<rparr>,
       s\<lparr>idempotency := (idempotency s)(action_id call \<mapsto> new_id (system call) d),
         state := (state s)(system call \<mapsto>
            (records_of s (system call))(new_id (system call) d \<mapsto>
               \<lparr>rec_operation = operation call, rec_params = params call,
                rec_created_at_ms = now_ms d, deleted = False\<rparr>))\<rparr>)"
  by (simp add: execute_direct_def Let_def)

lemma execute_direct_replay:
  "idempotency s (action_id call) = Some ext \<Longrightarrow>
   execute_direct d s call = (\<lparr>ok = True, external_id = ext, idempotent_replay = True\<rparr>, s)"
  by (simp add: execute_direct_def)

lemma execute_direct_keeps_entry:
  "idempotency s a = Some e \<Longrightarrow> idempotency (snd (execute_direct d s c)) a = Some e"
  by (auto simp add: execute_direct_def Let_def split: option.splits)

text \<open>
  C1. Executing \<open>N \<ge> 1\<close> calls that share an action id the ledger does not hold yet
  creates exactly one record. The first call returns a new external id with
  \<^verbatim>\<open>idempotent_replay\<close> false; every later call returns the same external id with
  \<^verbatim>\<open>idempotent_replay\<close> true and changes nothing: the systems object after the last
  call is the one the first call left, with one entry added to the idempotency table and
  one record added to the state. The baseline loop of \<^verbatim>\<open>FINTECH_ONLY.py\<close>, which calls
  \<^verbatim>\<open>execute\<close>, computes the same. The entry outlives every other execution, and in any
  later state that holds it a call with the action id is such a replay.
\<close>

theorem execute_idempotent:
  assumes fresh: "idempotency s a = None"
    and first: "action_id call = a"
    and rest: "\<forall>c \<in> set calls. action_id c = a"
  shows "run_trace_direct env i s (call # calls) =
           (\<lparr>ok = True, external_id = new_id (system call) (env i), idempotent_replay = False\<rparr> #
              replicate (length calls)
                \<lparr>ok = True, external_id = new_id (system call) (env i), idempotent_replay = True\<rparr>,
            s\<lparr>idempotency := (idempotency s)(a \<mapsto> new_id (system call) (env i)),
              state := (state s)(system call \<mapsto>
                 (records_of s (system call))(new_id (system call) (env i) \<mapsto>
                    \<lparr>rec_operation = operation call, rec_params = params call,
                     rec_created_at_ms = now_ms (env i), deleted = False\<rparr>))\<rparr>)
         \<and> run_baseline env i s (call # calls) = run_trace_direct env i s (call # calls)
         \<and> (\<forall>d' s' c. idempotency s' a = Some (new_id (system call) (env i)) \<longrightarrow>
               idempotency (snd (execute_direct d' s' c)) a = Some (new_id (system call) (env i)))
         \<and> (\<forall>d' s' c. idempotency s' a = Some (new_id (system call) (env i)) \<and> action_id c = a \<longrightarrow>
               execute_direct d' s' c =
                 (\<lparr>ok = True, external_id = new_id (system call) (env i), idempotent_replay = True\<rparr>, s'))"
proof -
  let ?ext = "new_id (system call) (env i)"
  let ?s1 = "snd (execute_direct (env i) s call)"
  have step: "execute_direct (env i) s call =
      (\<lparr>ok = True, external_id = ?ext, idempotent_replay = False\<rparr>,
       s\<lparr>idempotency := (idempotency s)(a \<mapsto> ?ext),
         state := (state s)(system call \<mapsto>
            (records_of s (system call))(?ext \<mapsto>
               \<lparr>rec_operation = operation call, rec_params = params call,
                rec_created_at_ms = now_ms (env i), deleted = False\<rparr>))\<rparr>)"
    using fresh first execute_direct_fresh [of s call "env i"] by simp
  have "idempotency ?s1 a = Some ?ext"
    by (simp add: step)
  from run_replay [OF this rest, of env "Suc i"]
  have run: "run_trace_direct env i s (call # calls) =
           (\<lparr>ok = True, external_id = ?ext, idempotent_replay = False\<rparr> #
              replicate (length calls) \<lparr>ok = True, external_id = ?ext, idempotent_replay = True\<rparr>,
            s\<lparr>idempotency := (idempotency s)(a \<mapsto> ?ext),
              state := (state s)(system call \<mapsto>
                 (records_of s (system call))(?ext \<mapsto>
                    \<lparr>rec_operation = operation call, rec_params = params call,
                     rec_created_at_ms = now_ms (env i), deleted = False\<rparr>))\<rparr>)"
    by (simp add: step)
  have keep: "\<forall>d' s' c. idempotency s' a = Some ?ext \<longrightarrow>
               idempotency (snd (execute_direct d' s' c)) a = Some ?ext"
    by (intro allI impI) (rule execute_direct_keeps_entry)
  have later: "\<forall>d' s' c. idempotency s' a = Some ?ext \<and> action_id c = a \<longrightarrow>
               execute_direct d' s' c =
                 (\<lparr>ok = True, external_id = ?ext, idempotent_replay = True\<rparr>, s')"
    by (intro allI impI) (simp add: execute_direct_replay)
  show ?thesis
    by (intro conjI) (rule run, rule run_baseline_eq, rule keep, rule later)
qed

theorem execute_idempotent_witness:
  "idempotency MockSystems_init ''fin_t5_pay'' = None \<and>
   action_id call_fin_t5_pay = ''fin_t5_pay'' \<and>
   fst (run_trace_direct env0 0 MockSystems_init [call_fin_t5_pay, call_fin_t5_pay, call_fin_t5_pay]) =
     [\<lparr>ok = True, external_id = ''stripe:0123456789'', idempotent_replay = False\<rparr>,
      \<lparr>ok = True, external_id = ''stripe:0123456789'', idempotent_replay = True\<rparr>,
      \<lparr>ok = True, external_id = ''stripe:0123456789'', idempotent_replay = True\<rparr>]"
proof -
  have f: "idempotency MockSystems_init ''fin_t5_pay'' = None"
    by (simp add: MockSystems_init_def)
  have a: "action_id call_fin_t5_pay = ''fin_t5_pay''"
    by (simp add: call_fin_t5_pay_def)
  have r: "\<forall>c \<in> set [call_fin_t5_pay, call_fin_t5_pay]. action_id c = ''fin_t5_pay''"
    using a by simp
  have x: "new_id (system call_fin_t5_pay) (env0 0) = ''stripe:0123456789''"
    by (simp add: new_id_def call_fin_t5_pay_def env0_def)
  from execute_idempotent [OF f a r, of env0 0]
  have "fst (run_trace_direct env0 0 MockSystems_init (call_fin_t5_pay # [call_fin_t5_pay, call_fin_t5_pay])) =
      \<lparr>ok = True, external_id = new_id (system call_fin_t5_pay) (env0 0), idempotent_replay = False\<rparr> #
        replicate (length [call_fin_t5_pay, call_fin_t5_pay])
          \<lparr>ok = True, external_id = new_id (system call_fin_t5_pay) (env0 0), idempotent_replay = True\<rparr>"
    by (elim conjE) (simp only: fst_conv)
  then have "fst (run_trace_direct env0 0 MockSystems_init [call_fin_t5_pay, call_fin_t5_pay, call_fin_t5_pay]) =
     [\<lparr>ok = True, external_id = ''stripe:0123456789'', idempotent_replay = False\<rparr>,
      \<lparr>ok = True, external_id = ''stripe:0123456789'', idempotent_replay = True\<rparr>,
      \<lparr>ok = True, external_id = ''stripe:0123456789'', idempotent_replay = True\<rparr>]"
    unfolding x by (simp add: numeral_2_eq_2)
  with f a show ?thesis by (intro conjI)
qed

lemma records_of_upd:
  "records_of (s\<lparr>state := (state s)(sys \<mapsto> m)\<rparr>) sys' = (if sys' = sys then m else records_of s sys')"
  by (simp add: records_of_def)

lemma undo_missing:
  "records_of s (system call) ext = None \<Longrightarrow>
   undo s call ext = ([(''ok'', PyBool False), (''error'', PyStr ''record_not_found'')], s)"
  by (simp add: undo_def)

lemma undo_found:
  "records_of s (system call) ext = Some r \<Longrightarrow>
   undo s call ext =
     ([(''ok'', PyBool True), (''undo_id'', PyStr (''undo:'' @ ext))],
      s\<lparr>state := (state s)(system call \<mapsto> (records_of s (system call))(ext \<mapsto> r\<lparr>deleted := True\<rparr>))\<rparr>)"
  by (simp add: undo_def)

text \<open>
  C5. \<^verbatim>\<open>undo\<close> answers \<^verbatim>\<open>record_not_found\<close> and changes nothing when the call's system
  holds no record under the external id. Otherwise it sets \<^verbatim>\<open>deleted\<close> on that record
  and on no other, leaves the idempotency table alone, and returns the identifier
  \<^verbatim>\<open>"undo:" + external_id\<close>; a second \<^verbatim>\<open>undo\<close> of the same entry succeeds with the same
  identifier and the same systems object.
\<close>

theorem undo_marks_deleted:
  "(records_of s (system call) ext = None \<longrightarrow>
      undo s call ext = ([(''ok'', PyBool False), (''error'', PyStr ''record_not_found'')], s)) \<and>
   (\<forall>r. records_of s (system call) ext = Some r \<longrightarrow>
      fst (undo s call ext) = [(''ok'', PyBool True), (''undo_id'', PyStr (''undo:'' @ ext))] \<and>
      get_record (snd (undo s call ext)) (system call) ext = Some (r\<lparr>deleted := True\<rparr>) \<and>
      (\<forall>sys e. (sys, e) \<noteq> (system call, ext) \<longrightarrow>
          get_record (snd (undo s call ext)) sys e = get_record s sys e) \<and>
      idempotency (snd (undo s call ext)) = idempotency s \<and>
      undo (snd (undo s call ext)) call ext = undo s call ext)"
proof (intro conjI allI impI)
  assume "records_of s (system call) ext = None"
  then show "undo s call ext = ([(''ok'', PyBool False), (''error'', PyStr ''record_not_found'')], s)"
    by (rule undo_missing)
next
  fix r assume r: "records_of s (system call) ext = Some r"
  let ?s1 = "s\<lparr>state := (state s)(system call \<mapsto> (records_of s (system call))(ext \<mapsto> r\<lparr>deleted := True\<rparr>))\<rparr>"
  have u: "undo s call ext = ([(''ok'', PyBool True), (''undo_id'', PyStr (''undo:'' @ ext))], ?s1)"
    using r by (rule undo_found)
  show "fst (undo s call ext) = [(''ok'', PyBool True), (''undo_id'', PyStr (''undo:'' @ ext))]"
    by (simp add: u)
  show "get_record (snd (undo s call ext)) (system call) ext = Some (r\<lparr>deleted := True\<rparr>)"
    by (simp add: u get_record_def records_of_upd)
  show "idempotency (snd (undo s call ext)) = idempotency s"
    by (simp add: u)
  have r1: "records_of ?s1 (system call) ext = Some (r\<lparr>deleted := True\<rparr>)"
    by (simp add: records_of_upd)
  show "undo (snd (undo s call ext)) call ext = undo s call ext"
    by (simp add: u undo_found [OF r1] records_of_upd)
  fix sys e assume "(sys, e) \<noteq> (system call, ext)"
  then show "get_record (snd (undo s call ext)) sys e = get_record s sys e"
    by (auto simp add: u get_record_def records_of_upd)
qed

theorem undo_marks_deleted_witness:
  "records_of MockSystems_init (system call_ins_t1_pay) ''stripe:0123456789'' = None \<and>
   undo MockSystems_init call_ins_t1_pay ''stripe:0123456789'' =
     ([(''ok'', PyBool False), (''error'', PyStr ''record_not_found'')], MockSystems_init) \<and>
   records_of (snd (execute_direct (env0 0) MockSystems_init call_ins_t1_pay))
       (system call_ins_t1_pay) ''stripe:0123456789'' =
     Some \<lparr>rec_operation = ''payment.execute'', rec_params = params call_ins_t1_pay,
           rec_created_at_ms = 1700000000000, deleted = False\<rparr> \<and>
   fst (undo (snd (execute_direct (env0 0) MockSystems_init call_ins_t1_pay))
          call_ins_t1_pay ''stripe:0123456789'') =
     [(''ok'', PyBool True), (''undo_id'', PyStr ''undo:stripe:0123456789'')] \<and>
   get_record (snd (undo (snd (execute_direct (env0 0) MockSystems_init call_ins_t1_pay))
          call_ins_t1_pay ''stripe:0123456789'')) ''stripe'' ''stripe:0123456789'' =
     Some \<lparr>rec_operation = ''payment.execute'', rec_params = params call_ins_t1_pay,
           rec_created_at_ms = 1700000000000, deleted = True\<rparr>"
proof -
  let ?s1 = "snd (execute_direct (env0 0) MockSystems_init call_ins_t1_pay)"
  let ?r = "\<lparr>rec_operation = ''payment.execute'', rec_params = params call_ins_t1_pay,
           rec_created_at_ms = 1700000000000, deleted = False\<rparr>"
  have none: "records_of MockSystems_init (system call_ins_t1_pay) ''stripe:0123456789'' = None"
    by (simp add: records_of_def MockSystems_init_def)
  have some: "records_of ?s1 (system call_ins_t1_pay) ''stripe:0123456789'' = Some ?r"
    by (simp add: execute_direct_def MockSystems_init_def Let_def records_of_def new_id_def
        env0_def call_ins_t1_pay_def)
  have sys: "system call_ins_t1_pay = ''stripe''"
    by (simp add: call_ins_t1_pay_def)
  from undo_marks_deleted [of MockSystems_init call_ins_t1_pay "''stripe:0123456789''"] none
  have a: "undo MockSystems_init call_ins_t1_pay ''stripe:0123456789'' =
     ([(''ok'', PyBool False), (''error'', PyStr ''record_not_found'')], MockSystems_init)"
    by blast
  from undo_marks_deleted [of ?s1 call_ins_t1_pay "''stripe:0123456789''"] some
  have b: "fst (undo ?s1 call_ins_t1_pay ''stripe:0123456789'') =
       [(''ok'', PyBool True), (''undo_id'', PyStr (''undo:'' @ ''stripe:0123456789''))] \<and>
     get_record (snd (undo ?s1 call_ins_t1_pay ''stripe:0123456789'')) (system call_ins_t1_pay)
       ''stripe:0123456789'' = Some (?r\<lparr>deleted := True\<rparr>)"
    by blast
  from none a some b show ?thesis
    by (simp add: sys)
qed

lemma approvals_for_approve:
  "approvals_for (approve h a) k =
     (if a_action_id a = k then approvals_for h k @ [a] else approvals_for h k)"
  by (simp add: approvals_for_def approve_def)

lemma approvals_for_foldl:
  "approvals_for (foldl approve h as) k = approvals_for h k @ filter (\<lambda>a. a_action_id a = k) as"
  by (induction as arbitrary: h) (simp_all add: approvals_for_approve)

text \<open>
  C7. The approvals a hook holds for an action id are the approvals recorded for that id,
  in the order of recording: a fresh hook holds none, recording the list \<open>as\<close> appends to
  each key the approvals of \<open>as\<close> for that key in order, what was held before stays as a
  prefix, and recording the same approval twice yields two entries.
\<close>

theorem approvals_append_only:
  "approvals_for NuvallaHook_init k = [] \<and>
   approvals_for (foldl approve NuvallaHook_init as) k = filter (\<lambda>a. a_action_id a = k) as \<and>
   approvals_for (foldl approve h as) k = approvals_for h k @ filter (\<lambda>a. a_action_id a = k) as \<and>
   prefix (approvals_for h k) (approvals_for (foldl approve h as) k) \<and>
   approvals_for (approve (approve h a) a) (a_action_id a) = approvals_for h (a_action_id a) @ [a, a]"
  by (simp add: approvals_for_foldl approvals_for_approve) (simp add: approvals_for_def NuvallaHook_init_def)

text \<open>
  C9. The evaluation is a function of the call and of the approvals recorded under the
  call's own action id: two hooks that hold the same approvals for that id give equal
  results (so do two evaluations against one hook), and recording approvals for other
  action ids does not change the result. The method assigns to no attribute of the hook,
  which is why \<open>evaluate\<close> returns no hook: after a governed run the hook holds what the
  approvals of the trace put there, whatever was evaluated.
\<close>

theorem evaluate_pure:
  "(approvals_for h1 (action_id call) = approvals_for h2 (action_id call) \<longrightarrow>
      evaluate h1 call = evaluate h2 call) \<and>
   (a_action_id approval \<noteq> action_id call \<longrightarrow> evaluate (approve h approval) call = evaluate h call) \<and>
   ((\<forall>a \<in> set as. a_action_id a \<noteq> action_id call) \<longrightarrow>
      evaluate (foldl approve h as) call = evaluate h call) \<and>
   fst (run_trace_with_nuvalla env trace systems h) = foldl approve h (approvals trace)"
proof -
  have dep: "evaluate h1 call = evaluate h2 call"
    if "approvals_for h1 (action_id call) = approvals_for h2 (action_id call)" for h1 h2
    using that unfolding evaluate_def by simp
  have one: "evaluate (approve h approval) call = evaluate h call"
    if "a_action_id approval \<noteq> action_id call"
    using that by (intro dep) (simp add: approvals_for_approve)
  have many: "evaluate (foldl approve h as) call = evaluate h call"
    if "\<forall>a \<in> set as. a_action_id a \<noteq> action_id call"
  proof (rule dep)
    have "filter (\<lambda>a. a_action_id a = action_id call) as = []"
      using that by (simp add: filter_empty_conv)
    then show "approvals_for (foldl approve h as) (action_id call) = approvals_for h (action_id call)"
      by (simp add: approvals_for_foldl)
  qed
  have kept: "fst (run_trace_with_nuvalla env trace systems h) = foldl approve h (approvals trace)"
    by (simp add: run_trace_with_nuvalla_def Let_def)
  from dep one many kept show ?thesis by blast
qed

theorem evaluate_pure_witness:
  "approvals_for NuvallaHook_init (action_id call_fin_t2_pay) =
     approvals_for (approve NuvallaHook_init approval_hlth_t1_med) (action_id call_fin_t2_pay) \<and>
   a_action_id approval_hlth_t1_med \<noteq> action_id call_fin_t2_pay \<and>
   evaluate (approve NuvallaHook_init approval_hlth_t1_med) call_fin_t2_pay =
     evaluate NuvallaHook_init call_fin_t2_pay \<and>
   evaluate (foldl approve NuvallaHook_init [approval_hlth_t1_med]) call_fin_t2_pay =
     evaluate NuvallaHook_init call_fin_t2_pay"
proof -
  have ne: "a_action_id approval_hlth_t1_med \<noteq> action_id call_fin_t2_pay"
    by (simp add: approval_hlth_t1_med_def call_fin_t2_pay_def)
  have eq: "approvals_for NuvallaHook_init (action_id call_fin_t2_pay) =
     approvals_for (approve NuvallaHook_init approval_hlth_t1_med) (action_id call_fin_t2_pay)"
    using ne by (simp add: approvals_for_def approve_def)
  have all: "\<forall>a \<in> set [approval_hlth_t1_med]. a_action_id a \<noteq> action_id call_fin_t2_pay"
    using ne by simp
  note w = evaluate_pure [where ?h1.0 = NuvallaHook_init
      and ?h2.0 = "approve NuvallaHook_init approval_hlth_t1_med"
      and call = call_fin_t2_pay and approval = approval_hlth_t1_med
      and h = NuvallaHook_init and as = "[approval_hlth_t1_med]"]
  from w ne have one: "evaluate (approve NuvallaHook_init approval_hlth_t1_med) call_fin_t2_pay =
     evaluate NuvallaHook_init call_fin_t2_pay"
    by blast
  from w all have many: "evaluate (foldl approve NuvallaHook_init [approval_hlth_t1_med]) call_fin_t2_pay =
     evaluate NuvallaHook_init call_fin_t2_pay"
    by blast
  show ?thesis
    by (intro conjI) (fact eq, fact ne, fact one, fact many)
qed

lemma str_of_int_examples:
  "str_of_int 850 = Inr ''850''" "str_of_int 2400 = Inr ''2400''" "str_of_int 25000 = Inr ''25000''"
  by (simp_all add: str_of_int_def str_of_nat.simps digit_char_def max_str_digits_def Let_def)

lemma gate_closed:
  "\<not> (decision evalr = COMMIT \<and> commit_allowed evalr) \<Longrightarrow>
   gate_and_execute d s call evalr = ((evalr, None), s)"
  by (auto simp add: gate_and_execute_def)

lemma gate_open:
  "decision evalr = COMMIT \<Longrightarrow> commit_allowed evalr \<Longrightarrow>
   snd (fst (gate_and_execute d s call evalr)) = Some (fst (execute_direct d s call))"
  by (simp add: gate_and_execute_def split: prod.splits)

lemma execute_direct_registers:
  "idempotency (snd (execute_direct d s call)) (action_id call) =
     Some (external_id (fst (execute_direct d s call)))"
  by (simp add: execute_direct_def Let_def split: option.splits)

lemma undo_keeps_idempotency: "idempotency (snd (undo s call ext)) = idempotency s"
  by (simp add: undo_def split: option.splits)

lemma gate_open_registers:
  assumes "decision evalr = COMMIT" and "commit_allowed evalr"
  shows "idempotency (snd (gate_and_execute d s call evalr)) (action_id call) =
     Some (external_id (fst (execute_direct d s call)))"
proof -
  obtain r s1 where e: "execute_direct d s call = (r, s1)"
    by (cases "execute_direct d s call")
  obtain u s2 where u: "undo s1 call (external_id r) = (u, s2)"
    by (cases "undo s1 call (external_id r)")
  have reg: "idempotency s1 (action_id call) = Some (external_id r)"
    using execute_direct_registers [of d s call] by (simp add: e)
  have "idempotency s2 = idempotency s1"
    using undo_keeps_idempotency [of s1 call "external_id r"] by (simp add: u)
  with reg show ?thesis
    using assms by (simp add: gate_and_execute_def e u)
qed

text \<open>
  C2. For a call whose evaluation returns \<open>evalr\<close>, the governed step executes the call
  if and only if \<open>evalr\<close> is \<^verbatim>\<open>COMMIT\<close> with \<^verbatim>\<open>commit_allowed\<close>: then the result of
  \<open>execute_direct\<close> is attached and the ledger holds an entry for the action id; in every
  other case, in particular on \<^verbatim>\<open>BLOCK\<close> and \<^verbatim>\<open>REQUIRE_APPROVAL\<close>, no execution
  result is attached, the evaluation is returned as it is and the systems object is
  unchanged.
\<close>

theorem execute_iff_commit:
  assumes "ev call = Inr evalr"
  shows "nuvalla_step ev d s call = Inr (gate_and_execute d s call evalr) \<and>
     (snd (fst (gate_and_execute d s call evalr)) \<noteq> None \<longleftrightarrow>
        decision evalr = COMMIT \<and> commit_allowed evalr) \<and>
     (decision evalr = COMMIT \<and> commit_allowed evalr \<longrightarrow>
        snd (fst (gate_and_execute d s call evalr)) = Some (fst (execute_direct d s call)) \<and>
        idempotency (snd (gate_and_execute d s call evalr)) (action_id call) =
          Some (external_id (fst (execute_direct d s call)))) \<and>
     (\<not> (decision evalr = COMMIT \<and> commit_allowed evalr) \<longrightarrow>
        gate_and_execute d s call evalr = ((evalr, None), s)) \<and>
     (decision evalr = BLOCK \<or> decision evalr = REQUIRE_APPROVAL \<longrightarrow>
        gate_and_execute d s call evalr = ((evalr, None), s))"
proof (cases "decision evalr = COMMIT \<and> commit_allowed evalr")
  case True
  then show ?thesis
    using assms gate_open [of evalr d s call] gate_open_registers [of evalr d s call]
    by (simp add: nuvalla_step_def)
next
  case False
  have blk: "decision evalr = BLOCK \<or> decision evalr = REQUIRE_APPROVAL \<Longrightarrow>
      \<not> (decision evalr = COMMIT \<and> commit_allowed evalr)"
    by auto
  from False show ?thesis
    using assms gate_closed [of evalr d s call]
    by (simp add: nuvalla_step_def)
qed

theorem execute_iff_commit_witness:
  "evaluate NuvallaHook_init call_fin_t1_vendor =
     Inr \<lparr>decision = BLOCK, message = ''Vendor creation blocked: KYC not passed'',
          commit_allowed = False, required_approvals = 0,
          receipt = [(''policy'', PyStr ''vendor_kyc_required'')]\<rparr> \<and>
   nuvalla_step (evaluate NuvallaHook_init) (env0 0) MockSystems_init call_fin_t1_vendor =
     Inr ((\<lparr>decision = BLOCK, message = ''Vendor creation blocked: KYC not passed'',
            commit_allowed = False, required_approvals = 0,
            receipt = [(''policy'', PyStr ''vendor_kyc_required'')]\<rparr>, None), MockSystems_init) \<and>
   (\<exists>evalr. evaluate NuvallaHook_init call_fin_t5_pay = Inr evalr \<and>
      decision evalr = COMMIT \<and> commit_allowed evalr \<and>
      idempotency (snd (gate_and_execute (env0 0) MockSystems_init call_fin_t5_pay evalr))
        (action_id call_fin_t5_pay) = Some ''stripe:0123456789'')"
proof -
  let ?blk = "\<lparr>decision = BLOCK, message = ''Vendor creation blocked: KYC not passed'',
          commit_allowed = False, required_approvals = 0,
          receipt = [(''policy'', PyStr ''vendor_kyc_required'')]\<rparr>"
  have e1: "evaluate NuvallaHook_init call_fin_t1_vendor = Inr ?blk"
    by (simp add: evaluate_def call_fin_t1_vendor_def params_get_def)
  obtain evalr where e2: "evaluate NuvallaHook_init call_fin_t5_pay = Inr evalr"
    and c: "decision evalr = COMMIT" "commit_allowed evalr"
    by (simp add: evaluate_def call_fin_t5_pay_def params_get_def str_of_int_examples)
  have x: "external_id (fst (execute_direct (env0 0) MockSystems_init call_fin_t5_pay)) = ''stripe:0123456789''"
    by (simp add: execute_direct_def MockSystems_init_def call_fin_t5_pay_def env0_def new_id_def Let_def)
  have w1: "nuvalla_step (evaluate NuvallaHook_init) (env0 0) MockSystems_init call_fin_t1_vendor =
      Inr (gate_and_execute (env0 0) MockSystems_init call_fin_t1_vendor ?blk) \<and>
      gate_and_execute (env0 0) MockSystems_init call_fin_t1_vendor ?blk = ((?blk, None), MockSystems_init)"
    using execute_iff_commit [where ev = "evaluate NuvallaHook_init" and call = call_fin_t1_vendor
        and evalr = ?blk and d = "env0 0" and s = MockSystems_init] e1
    by simp
  have w2: "idempotency (snd (gate_and_execute (env0 0) MockSystems_init call_fin_t5_pay evalr))
        (action_id call_fin_t5_pay) = Some ''stripe:0123456789''"
    using execute_iff_commit [where ev = "evaluate NuvallaHook_init" and call = call_fin_t5_pay
        and evalr = evalr and d = "env0 0" and s = MockSystems_init] e2 c x
    by simp
  from e1 w1 e2 c w2 show ?thesis by auto
qed

lemma evaluate_malformed_amount:
  "evaluate NuvallaHook_init call_malformed_amount = Inl ValueError"
proof -
  have "int_of_str ''18,750'' = Inl ValueError"
    by (simp add: int_of_str_def int_of_digits_def strip_def is_space_def is_digit_def)
  then show ?thesis
    by (simp add: evaluate_def call_malformed_amount_def params_get_def)
qed

text \<open>
  The claim C3 asks for a distinct \<^verbatim>\<open>PolicyUnavailable\<close> error. For a payment whose
  amount is the string \<^verbatim>\<open>18,750\<close> the evaluation raises \<^verbatim>\<open>ValueError\<close>, and that is what
  leaves the replay.
\<close>

theorem policy_error_counterexample:
  "evaluate NuvallaHook_init call_malformed_amount = Inl ValueError \<and>
   nuvalla_steps (evaluate NuvallaHook_init) env0 0 MockSystems_init [call_malformed_amount] =
     ([], MockSystems_init, Some ValueError) \<and>
   snd (snd (nuvalla_steps (evaluate NuvallaHook_init) env0 0 MockSystems_init [call_malformed_amount]))
     \<noteq> Some PolicyUnavailable"
  by (simp add: nuvalla_step_def evaluate_malformed_amount)

text \<open>The loop over a trace that is cut in two: the second part starts where the first ended.\<close>

lemma nuvalla_steps_append:
  "nuvalla_steps ev env i s pre = (outs, s1, None) \<Longrightarrow>
   nuvalla_steps ev env i s (pre @ calls) =
     (case nuvalla_steps ev env (i + length pre) s1 calls of
        (outs', s2, err) \<Rightarrow> (outs @ outs', s2, err))"
proof (induction pre arbitrary: i s outs s1)
  case Nil
  then show ?case by (simp split: prod.splits)
next
  case (Cons call pre)
  show ?case
  proof (cases "nuvalla_step ev (env i) s call")
    case (Inl e)
    with Cons.prems show ?thesis by simp
  next
    case (Inr r)
    obtain out s' where r: "r = (out, s')" by (cases r)
    obtain outs0 s0 err0 where rest: "nuvalla_steps ev env (Suc i) s' pre = (outs0, s0, err0)"
      by (cases "nuvalla_steps ev env (Suc i) s' pre")
    from Cons.prems have e: "err0 = None" and o: "outs = out # outs0" and s: "s1 = s0"
      by (simp_all add: Inr r rest)
    have "nuvalla_steps ev env (Suc i) s' (pre @ calls) =
        (case nuvalla_steps ev env (Suc i + length pre) s0 calls of
           (outs', s2, err) \<Rightarrow> (outs0 @ outs', s2, err))"
      using rest unfolding e by (rule Cons.IH)
    then show ?thesis
      by (simp add: Inr r o s split: prod.splits)
  qed
qed

text \<open>
  C3, as the code has it. When the evaluation of a call raises, the step raises the same
  exception and the replay ends there: the call is not executed, the systems object is
  the one the calls before it left (no ledger entry is created for its action id,
  nothing is committed), what was printed for the calls before it stays, and no later
  call of the trace is processed. The exception is the one the evaluation raised.
\<close>

theorem policy_error_propagates:
  "(ev call = Inl e \<longrightarrow>
      nuvalla_step ev d s call = Inl e \<and>
      nuvalla_steps ev env i s (call # calls) = ([], s, Some e)) \<and>
   (ev call = Inl e \<and> nuvalla_steps ev env i s pre = (outs, s1, None) \<longrightarrow>
      nuvalla_steps ev env i s (pre @ call # calls) = (outs, s1, Some e))"
proof (intro conjI impI)
  assume "ev call = Inl e"
  then show "nuvalla_step ev d s call = Inl e"
    and "nuvalla_steps ev env i s (call # calls) = ([], s, Some e)"
    by (simp_all add: nuvalla_step_def)
next
  assume a: "ev call = Inl e \<and> nuvalla_steps ev env i s pre = (outs, s1, None)"
  then have "nuvalla_steps ev env (i + length pre) s1 (call # calls) = ([], s1, Some e)"
    by (simp add: nuvalla_step_def)
  with a show "nuvalla_steps ev env i s (pre @ call # calls) = (outs, s1, Some e)"
    by (simp add: nuvalla_steps_append)
qed

theorem policy_error_propagates_witness:
  "evaluate NuvallaHook_init call_malformed_amount = Inl ValueError \<and>
   nuvalla_step (evaluate NuvallaHook_init) (env0 0) MockSystems_init call_malformed_amount =
     Inl ValueError \<and>
   nuvalla_steps (evaluate NuvallaHook_init) env0 0 MockSystems_init
       [call_malformed_amount, call_fin_t5_pay] =
     ([], MockSystems_init, Some ValueError) \<and>
   nuvalla_steps (evaluate NuvallaHook_init) env0 0 MockSystems_init [] =
     ([], MockSystems_init, None) \<and>
   nuvalla_steps (evaluate NuvallaHook_init) env0 0 MockSystems_init
       ([] @ call_malformed_amount # [call_fin_t5_pay]) =
     ([], MockSystems_init, Some ValueError)"
proof -
  note e = evaluate_malformed_amount
  have n: "nuvalla_steps (evaluate NuvallaHook_init) env0 0 MockSystems_init [] =
     ([], MockSystems_init, None)"
    by simp
  note w = policy_error_propagates [where ev = "evaluate NuvallaHook_init"
      and call = call_malformed_amount and e = ValueError and d = "env0 0"
      and s = MockSystems_init and env = env0 and i = 0 and calls = "[call_fin_t5_pay]"
      and pre = "[]" and outs = "[]" and ?s1.0 = MockSystems_init]
  from w have "evaluate NuvallaHook_init call_malformed_amount = Inl ValueError \<longrightarrow>
      nuvalla_step (evaluate NuvallaHook_init) (env0 0) MockSystems_init call_malformed_amount =
        Inl ValueError \<and>
      nuvalla_steps (evaluate NuvallaHook_init) env0 0 MockSystems_init
        (call_malformed_amount # [call_fin_t5_pay]) = ([], MockSystems_init, Some ValueError)"
    by (rule conjunct1)
  from this e have ab: "nuvalla_step (evaluate NuvallaHook_init) (env0 0) MockSystems_init call_malformed_amount =
        Inl ValueError \<and>
      nuvalla_steps (evaluate NuvallaHook_init) env0 0 MockSystems_init
        (call_malformed_amount # [call_fin_t5_pay]) = ([], MockSystems_init, Some ValueError)"
    by (rule mp)
  from ab have a: "nuvalla_step (evaluate NuvallaHook_init) (env0 0) MockSystems_init call_malformed_amount =
     Inl ValueError"
    by (rule conjunct1)
  from ab have b: "nuvalla_steps (evaluate NuvallaHook_init) env0 0 MockSystems_init
       [call_malformed_amount, call_fin_t5_pay] = ([], MockSystems_init, Some ValueError)"
    by (rule conjunct2)
  from e n have en: "evaluate NuvallaHook_init call_malformed_amount = Inl ValueError \<and>
      nuvalla_steps (evaluate NuvallaHook_init) env0 0 MockSystems_init [] =
        ([], MockSystems_init, None)"
    by (rule conjI)
  from w have "evaluate NuvallaHook_init call_malformed_amount = Inl ValueError \<and>
      nuvalla_steps (evaluate NuvallaHook_init) env0 0 MockSystems_init [] =
        ([], MockSystems_init, None) \<longrightarrow>
      nuvalla_steps (evaluate NuvallaHook_init) env0 0 MockSystems_init
        ([] @ call_malformed_amount # [call_fin_t5_pay]) = ([], MockSystems_init, Some ValueError)"
    by (rule conjunct2)
  from this en have c: "nuvalla_steps (evaluate NuvallaHook_init) env0 0 MockSystems_init
       ([] @ call_malformed_amount # [call_fin_t5_pay]) = ([], MockSystems_init, Some ValueError)"
    by (rule mp)
  show ?thesis
    by (intro conjI) (rule e, rule a, rule b, rule n, rule c)
qed

lemma map_of_dict_set: "map_of (dict_set d k v) = (map_of d)(k \<mapsto> v)"
  by (induction d k v rule: dict_set.induct) (auto simp add: fun_upd_twist)

lemma dict_get_merge2:
  "dict_get (dict_merge d [(k1, v1), (k2, v2)]) k =
     (if k = k2 then Some v2 else if k = k1 then Some v1 else dict_get d k)"
  by (simp add: dict_get_def map_of_dict_set)

lemma dict_merge_keeps:
  "k \<noteq> k1 \<Longrightarrow> k \<noteq> k2 \<Longrightarrow> dict_get (dict_merge d [(k1, v1), (k2, v2)]) k = dict_get d k"
  by (simp add: dict_get_def map_of_dict_set)

lemma execute_direct_record:
  assumes "idempotency s (action_id call) = None \<or>
      (\<exists>e r. idempotency s (action_id call) = Some e \<and> records_of s (system call) e = Some r)"
  shows "\<exists>r. records_of (snd (execute_direct d s call)) (system call)
                (external_id (fst (execute_direct d s call))) = Some r"
  using assms by (auto simp add: execute_direct_def Let_def records_of_def)

text \<open>
  The claim C4 asks that the undo be performed, so that the record is marked deleted,
  whenever a committed call carries the failure signal, and that a decision \<^verbatim>\<open>UNDO\<close>
  be returned in place of the \<^verbatim>\<open>COMMIT\<close>. In \<^verbatim>\<open>trace_dup\<close> the payment repeats the action
  id of the vendor creation: \<^verbatim>\<open>execute_direct\<close> answers with the external id of the vendor
  record, \<^verbatim>\<open>undo\<close> looks for it under \<^verbatim>\<open>stripe\<close> and finds nothing, and the step still
  returns \<^verbatim>\<open>UNDO\<close>, with \<^verbatim>\<open>record_not_found\<close> in the receipt; the systems object is the one
  the first call left, no record is marked deleted. And the runner of \<^verbatim>\<open>FINTECH_ONLY.py\<close>
  prints the receipt of the adapter, here a \<^verbatim>\<open>COMMIT\<close>, for a payment it has undone.
\<close>

theorem post_commit_failure_counterexample:
  "run_trace_with_nuvalla env0 trace_dup MockSystems_init NuvallaHook_init =
     (NuvallaHook_init,
      [(\<lparr>decision = COMMIT, message = ''Vendor creation allowed: KYC passed'',
         commit_allowed = True, required_approvals = 0,
         receipt = [(''policy'', PyStr ''vendor_kyc_required'')]\<rparr>,
        Some \<lparr>ok = True, external_id = ''netsuite:0123456789'', idempotent_replay = False\<rparr>),
       (\<lparr>decision = UNDO,
         message = ''Post-commit failure detected; compensating undo executed'',
         commit_allowed = False, required_approvals = 0,
         receipt = [(''policy'', PyStr ''payment_threshold''), (''amount_usd'', PyInt 850),
                    (''approvals'', PyList []), (''post_commit_failure'', PyBool True),
                    (''undo'', PyDict [(''ok'', PyBool False), (''error'', PyStr ''record_not_found'')])]\<rparr>,
        Some \<lparr>ok = True, external_id = ''netsuite:0123456789'', idempotent_replay = True\<rparr>)],
      snd (execute_direct (env0 0) MockSystems_init call_dup_vendor), None) \<and>
   get_record (snd (execute_direct (env0 0) MockSystems_init call_dup_vendor))
       ''netsuite'' ''netsuite:0123456789'' =
     Some \<lparr>rec_operation = ''vendor.create'', rec_params = params call_dup_vendor,
           rec_created_at_ms = 1700000000000, deleted = False\<rparr> \<and>
   state (snd (execute_direct (env0 0) MockSystems_init call_dup_vendor)) ''stripe'' = None \<and>
   printed (run_fintech_replay adapter_commit_all env0 trace_flagged_payment []) =
     [(\<lparr>r_decision = F_COMMIT, status = ''success'', r_message = ''ok'', r_receipt = []\<rparr>,
       Some \<lparr>ok = True, external_id = ''stripe:0123456789'', idempotent_replay = False\<rparr>)] \<and>
   get_record (systems_after (run_fintech_replay adapter_commit_all env0 trace_flagged_payment []))
       ''stripe'' ''stripe:0123456789'' =
     Some \<lparr>rec_operation = ''payment.execute'', rec_params = params call_ins_t1_pay,
           rec_created_at_ms = 1700000000000, deleted = True\<rparr>"
proof -
  let ?ev1 = "\<lparr>decision = COMMIT, message = ''Vendor creation allowed: KYC passed'',
         commit_allowed = True, required_approvals = 0,
         receipt = [(''policy'', PyStr ''vendor_kyc_required'')]\<rparr>"
  let ?ev2 = "\<lparr>decision = COMMIT, message = ''Payment $850 allowed (policy ok)'',
         commit_allowed = True, required_approvals = 0,
         receipt = [(''policy'', PyStr ''payment_threshold''), (''amount_usd'', PyInt 850),
                    (''approvals'', PyList [])]\<rparr>"
  let ?un = "\<lparr>decision = UNDO,
         message = ''Post-commit failure detected; compensating undo executed'',
         commit_allowed = False, required_approvals = 0,
         receipt = [(''policy'', PyStr ''payment_threshold''), (''amount_usd'', PyInt 850),
                    (''approvals'', PyList []), (''post_commit_failure'', PyBool True),
                    (''undo'', PyDict [(''ok'', PyBool False), (''error'', PyStr ''record_not_found'')])]\<rparr>"
  let ?r1 = "\<lparr>ok = True, external_id = ''netsuite:0123456789'', idempotent_replay = False\<rparr>"
  let ?r2 = "\<lparr>ok = True, external_id = ''netsuite:0123456789'', idempotent_replay = True\<rparr>"
  define s1 where "s1 = snd (execute_direct (env0 0) MockSystems_init call_dup_vendor)"
  have e1: "evaluate NuvallaHook_init call_dup_vendor = Inr ?ev1"
    by (simp add: evaluate_def call_dup_vendor_def params_get_def approvals_for_def
        NuvallaHook_init_def)
  have e2: "evaluate NuvallaHook_init call_dup_pay = Inr ?ev2"
    by (simp add: evaluate_def call_dup_pay_def params_get_def approvals_for_def
        NuvallaHook_init_def str_of_int_examples)
  have x1: "execute_direct (env0 0) MockSystems_init call_dup_vendor = (?r1, s1)"
    unfolding s1_def
    by (simp add: execute_direct_def MockSystems_init_def Let_def new_id_def env0_def
        call_dup_vendor_def)
  have id1: "idempotency s1 (action_id call_dup_pay) = Some ''netsuite:0123456789''"
    unfolding s1_def
    by (simp add: execute_direct_def MockSystems_init_def Let_def new_id_def env0_def
        call_dup_vendor_def call_dup_pay_def)
  have st: "state s1 ''stripe'' = None"
    unfolding s1_def
    by (simp add: execute_direct_def MockSystems_init_def Let_def call_dup_vendor_def)
  have rec: "get_record s1 ''netsuite'' ''netsuite:0123456789'' =
     Some \<lparr>rec_operation = ''vendor.create'', rec_params = params call_dup_vendor,
           rec_created_at_ms = 1700000000000, deleted = False\<rparr>"
    unfolding s1_def
    by (simp add: get_record_def records_of_def execute_direct_def MockSystems_init_def Let_def
        new_id_def env0_def call_dup_vendor_def)
  have x2: "execute_direct (env0 (Suc 0)) s1 call_dup_pay = (?r2, s1)"
    using id1 by (simp add: execute_direct_def)
  have nf: "records_of s1 (system call_dup_pay) ''netsuite:0123456789'' = None"
    using st by (simp add: records_of_def call_dup_pay_def)
  have u: "undo s1 call_dup_pay ''netsuite:0123456789'' =
      ([(''ok'', PyBool False), (''error'', PyStr ''record_not_found'')], s1)"
    using nf by (rule undo_missing)
  have f1: "\<not> py_bool (params_get call_dup_vendor ''force_post_commit_failure'' (PBool False))"
    by (simp add: params_get_def call_dup_vendor_def)
  have f2: "py_bool (params_get call_dup_pay ''force_post_commit_failure'' (PBool False))"
    by (simp add: params_get_def call_dup_pay_def)
  have g1: "gate_and_execute (env0 0) MockSystems_init call_dup_vendor ?ev1 = ((?ev1, Some ?r1), s1)"
    using f1 by (simp add: gate_and_execute_def x1)
  have g2: "gate_and_execute (env0 (Suc 0)) s1 call_dup_pay ?ev2 = ((?un, Some ?r2), s1)"
    using f2 by (simp add: gate_and_execute_def x2 u)
  have steps: "nuvalla_steps (evaluate NuvallaHook_init) env0 0 MockSystems_init
      [call_dup_vendor, call_dup_pay] = ([(?ev1, Some ?r1), (?un, Some ?r2)], s1, None)"
    by (simp add: nuvalla_step_def e1 e2 g1 g2)
  have run: "run_trace_with_nuvalla env0 trace_dup MockSystems_init NuvallaHook_init =
      (NuvallaHook_init, [(?ev1, Some ?r1), (?un, Some ?r2)], s1, None)"
    using steps by (simp add: run_trace_with_nuvalla_def trace_dup_def)
  have fin: "run_fintech_replay adapter_commit_all env0 trace_flagged_payment [] =
      replay_schedule adapter_commit_all env0 [] [call_ins_t1_pay] []"
    by (simp add: run_fintech_replay_def trace_flagged_payment_def)
  have f3: "py_bool (params_get call_ins_t1_pay ''force_post_commit_failure'' (PBool False))"
    by (simp add: params_get_def call_ins_t1_pay_def)
  let ?rec = "\<lparr>rec_operation = ''payment.execute'', rec_params = params call_ins_t1_pay,
           rec_created_at_ms = 1700000000000, deleted = False\<rparr>"
  define s3 where "s3 = snd (execute (env0 0) MockSystems_init call_ins_t1_pay)"
  have x3: "execute (env0 0) MockSystems_init call_ins_t1_pay =
      (\<lparr>ok = True, external_id = ''stripe:0123456789'', idempotent_replay = False\<rparr>, s3)"
    unfolding s3_def
    by (simp add: execute_def MockSystems_init_def Let_def new_id_def env0_def call_ins_t1_pay_def)
  have r3: "records_of s3 (system call_ins_t1_pay) ''stripe:0123456789'' = Some ?rec"
    unfolding s3_def
    by (simp add: execute_def MockSystems_init_def Let_def new_id_def env0_def records_of_def
        call_ins_t1_pay_def)
  have u3: "undo s3 call_ins_t1_pay ''stripe:0123456789'' =
      ([(''ok'', PyBool True), (''undo_id'', PyStr (''undo:'' @ ''stripe:0123456789''))],
       s3\<lparr>state := (state s3)(system call_ins_t1_pay \<mapsto>
          (records_of s3 (system call_ins_t1_pay))(''stripe:0123456789'' \<mapsto> ?rec\<lparr>deleted := True\<rparr>))\<rparr>)"
    using r3 by (rule undo_found)
  have c3: "commit_if_allowed (env0 0) MockSystems_init call_ins_t1_pay
        \<lparr>r_decision = F_COMMIT, status = ''success'', r_message = ''ok'', r_receipt = []\<rparr> =
      (Some \<lparr>ok = True, external_id = ''stripe:0123456789'', idempotent_replay = False\<rparr>,
       s3\<lparr>state := (state s3)(system call_ins_t1_pay \<mapsto>
          (records_of s3 (system call_ins_t1_pay))(''stripe:0123456789'' \<mapsto> ?rec\<lparr>deleted := True\<rparr>))\<rparr>)"
    using f3 by (simp add: commit_if_allowed_def x3 u3)
  have i3: "intercept adapter_commit_all [] call_ins_t1_pay =
      (Inr \<lparr>r_decision = F_COMMIT, status = ''success'', r_message = ''ok'', r_receipt = []\<rparr>, [])"
    by (simp add: adapter_commit_all_def)
  have sys: "system call_ins_t1_pay = ''stripe''"
    by (simp add: call_ins_t1_pay_def)
  have p: "printed (replay_schedule adapter_commit_all env0 [] [call_ins_t1_pay] []) =
     [(\<lparr>r_decision = F_COMMIT, status = ''success'', r_message = ''ok'', r_receipt = []\<rparr>,
       Some \<lparr>ok = True, external_id = ''stripe:0123456789'', idempotent_replay = False\<rparr>)]"
    by (simp add: replay_schedule_def Let_def at_step_def i3 c3)
  have q: "get_record (systems_after (replay_schedule adapter_commit_all env0 [] [call_ins_t1_pay] []))
       ''stripe'' ''stripe:0123456789'' = Some (?rec\<lparr>deleted := True\<rparr>)"
    by (simp add: replay_schedule_def Let_def at_step_def i3 c3 get_record_def records_of_upd sys)
  show ?thesis
    unfolding fin run p q
    using rec st unfolding s1_def by simp
qed

text \<open>
  C4, as the code has it. Let a call carry \<^verbatim>\<open>force_post_commit_failure\<close>, and let the
  ledger either not hold its action id or hold it with a record in the call's own
  system, as it does for a retry of the same call. When the call is committed (decision
  \<^verbatim>\<open>COMMIT\<close> with \<^verbatim>\<open>commit_allowed\<close>), the loop of \<^verbatim>\<open>run_trace_with_nuvalla\<close> executes it and
  undoes it: the undo succeeds, the record under the external id has \<^verbatim>\<open>deleted\<close> set, and
  the evaluation returned in place of the commit has state \<^verbatim>\<open>UNDO\<close>, \<^verbatim>\<open>commit_allowed\<close>
  false, and the receipt of the commit merged with \<^verbatim>\<open>post_commit_failure: True\<close> and
  \<^verbatim>\<open>undo:\<close> the result of the undo (every other key keeps its value). The loop of
  \<^verbatim>\<open>run_fintech_replay\<close>, on a receipt \<^verbatim>\<open>COMMIT\<close> with status \<^verbatim>\<open>success\<close>, executes and undoes
  the call in the same way, and the record has \<^verbatim>\<open>deleted\<close> set; what it prints for the call
  is the receipt the adapter returned, whatever it is, and no decision is made up.
\<close>

theorem post_commit_failure_undone:
  assumes flag: "py_bool (params_get call ''force_post_commit_failure'' (PBool False))"
    and held: "idempotency s (action_id call) = None \<or>
      (\<exists>e r. idempotency s (action_id call) = Some e \<and> records_of s (system call) e = Some r)"
  shows "(decision evalr = COMMIT \<and> commit_allowed evalr \<longrightarrow>
      (\<exists>ext undo_res evalr'.
         ext = external_id (fst (execute_direct d s call)) \<and>
         undo_res = [(''ok'', PyBool True), (''undo_id'', PyStr (''undo:'' @ ext))] \<and>
         undo (snd (execute_direct d s call)) call ext =
           (undo_res, snd (gate_and_execute d s call evalr)) \<and>
         gate_and_execute d s call evalr =
           ((evalr', Some (fst (execute_direct d s call))),
            snd (undo (snd (execute_direct d s call)) call ext)) \<and>
         evalr' = \<lparr>decision = UNDO,
                   message = ''Post-commit failure detected; compensating undo executed'',
                   commit_allowed = False,
                   required_approvals = 0,
                   receipt = dict_merge (receipt evalr)
                     [(''post_commit_failure'', PyBool True), (''undo'', PyDict undo_res)]\<rparr> \<and>
         dict_get (receipt evalr') ''post_commit_failure'' = Some (PyBool True) \<and>
         dict_get (receipt evalr') ''undo'' = Some (PyDict undo_res) \<and>
         (\<forall>k. k \<noteq> ''post_commit_failure'' \<and> k \<noteq> ''undo'' \<longrightarrow>
              dict_get (receipt evalr') k = dict_get (receipt evalr) k) \<and>
         (\<exists>r. get_record (snd (gate_and_execute d s call evalr)) (system call) ext = Some r \<and>
              deleted r))) \<and>
     (r_decision rcpt = F_COMMIT \<and> status rcpt = ''success'' \<longrightarrow>
      (\<exists>ext undo_res.
         ext = external_id (fst (execute d s call)) \<and>
         undo_res = [(''ok'', PyBool True), (''undo_id'', PyStr (''undo:'' @ ext))] \<and>
         undo (snd (execute d s call)) call ext =
           (undo_res, snd (commit_if_allowed d s call rcpt)) \<and>
         fst (commit_if_allowed d s call rcpt) = Some (fst (execute d s call)) \<and>
         (\<exists>r. get_record (snd (commit_if_allowed d s call rcpt)) (system call) ext = Some r \<and>
              deleted r))) \<and>
     (intercept A ad call = (Inr rcpt, ad') \<longrightarrow>
        printed (replay_schedule A env [] [call] ad) =
          [(rcpt, fst (commit_if_allowed (env 0) MockSystems_init call rcpt))] \<and>
        systems_after (replay_schedule A env [] [call] ad) =
          snd (commit_if_allowed (env 0) MockSystems_init call rcpt))"
proof -
  obtain x s1 where e: "execute_direct d s call = (x, s1)"
    by (cases "execute_direct d s call")
  let ?ext = "external_id x"
  let ?u = "[(''ok'', PyBool True), (''undo_id'', PyStr (''undo:'' @ ?ext))]"
  obtain r where r: "records_of s1 (system call) ?ext = Some r"
    using execute_direct_record [OF held, of d] by (auto simp add: e)
  let ?s2 = "s1\<lparr>state := (state s1)(system call \<mapsto>
                (records_of s1 (system call))(?ext \<mapsto> r\<lparr>deleted := True\<rparr>))\<rparr>"
  have u: "undo s1 call ?ext = (?u, ?s2)"
    using r by (rule undo_found)
  have del: "get_record ?s2 (system call) ?ext = Some (r\<lparr>deleted := True\<rparr>) \<and>
      deleted (r\<lparr>deleted := True\<rparr>)"
    by (simp add: get_record_def records_of_upd)
  then have del': "\<exists>r. get_record ?s2 (system call) ?ext = Some r \<and> deleted r"
    by (rule exI [where x = "r\<lparr>deleted := True\<rparr>"])
  have x: "fst (execute_direct d s call) = x" "snd (execute_direct d s call) = s1"
    by (simp_all add: e)
  have y: "fst (execute d s call) = x" "snd (execute d s call) = s1"
    by (simp_all add: execute_eq e)
  have ux: "snd (undo s1 call ?ext) = ?s2"
    by (simp add: u)
  have amr: "\<exists>ext undo_res evalr'.
         ext = external_id (fst (execute_direct d s call)) \<and>
         undo_res = [(''ok'', PyBool True), (''undo_id'', PyStr (''undo:'' @ ext))] \<and>
         undo (snd (execute_direct d s call)) call ext =
           (undo_res, snd (gate_and_execute d s call evalr)) \<and>
         gate_and_execute d s call evalr =
           ((evalr', Some (fst (execute_direct d s call))),
            snd (undo (snd (execute_direct d s call)) call ext)) \<and>
         evalr' = \<lparr>decision = UNDO,
                   message = ''Post-commit failure detected; compensating undo executed'',
                   commit_allowed = False,
                   required_approvals = 0,
                   receipt = dict_merge (receipt evalr)
                     [(''post_commit_failure'', PyBool True), (''undo'', PyDict undo_res)]\<rparr> \<and>
         dict_get (receipt evalr') ''post_commit_failure'' = Some (PyBool True) \<and>
         dict_get (receipt evalr') ''undo'' = Some (PyDict undo_res) \<and>
         (\<forall>k. k \<noteq> ''post_commit_failure'' \<and> k \<noteq> ''undo'' \<longrightarrow>
              dict_get (receipt evalr') k = dict_get (receipt evalr) k) \<and>
         (\<exists>r. get_record (snd (gate_and_execute d s call evalr)) (system call) ext = Some r \<and>
              deleted r)"
    if commit: "decision evalr = COMMIT \<and> commit_allowed evalr"
  proof -
    let ?evalr' = "\<lparr>decision = UNDO,
               message = ''Post-commit failure detected; compensating undo executed'',
               commit_allowed = False,
               required_approvals = 0,
               receipt = dict_merge (receipt evalr)
                 [(''post_commit_failure'', PyBool True), (''undo'', PyDict ?u)]\<rparr>"
    have g: "gate_and_execute d s call evalr = ((?evalr', Some x), ?s2)"
      using commit flag by (simp add: gate_and_execute_def e u)
    have sg: "snd (gate_and_execute d s call evalr) = ?s2"
      by (simp add: g)
    have rcpt: "receipt ?evalr' = dict_merge (receipt evalr)
                 [(''post_commit_failure'', PyBool True), (''undo'', PyDict ?u)]"
      by simp
    have d1: "dict_get (receipt ?evalr') ''post_commit_failure'' = Some (PyBool True)"
      unfolding rcpt dict_get_merge2 by simp
    have d2: "dict_get (receipt ?evalr') ''undo'' = Some (PyDict ?u)"
      unfolding rcpt dict_get_merge2 by simp
    have d3: "\<forall>k. k \<noteq> ''post_commit_failure'' \<and> k \<noteq> ''undo'' \<longrightarrow>
          dict_get (receipt ?evalr') k = dict_get (receipt evalr) k"
      unfolding rcpt using dict_merge_keeps by blast
    have "?ext = external_id (fst (execute_direct d s call)) \<and>
         ?u = [(''ok'', PyBool True), (''undo_id'', PyStr (''undo:'' @ ?ext))] \<and>
         undo (snd (execute_direct d s call)) call ?ext =
           (?u, snd (gate_and_execute d s call evalr)) \<and>
         gate_and_execute d s call evalr =
           ((?evalr', Some (fst (execute_direct d s call))),
            snd (undo (snd (execute_direct d s call)) call ?ext)) \<and>
         ?evalr' = ?evalr' \<and>
         dict_get (receipt ?evalr') ''post_commit_failure'' = Some (PyBool True) \<and>
         dict_get (receipt ?evalr') ''undo'' = Some (PyDict ?u) \<and>
         (\<forall>k. k \<noteq> ''post_commit_failure'' \<and> k \<noteq> ''undo'' \<longrightarrow>
              dict_get (receipt ?evalr') k = dict_get (receipt evalr) k) \<and>
         (\<exists>r. get_record (snd (gate_and_execute d s call evalr)) (system call) ?ext = Some r \<and>
              deleted r)"
      unfolding x sg ux
    proof (intro conjI)
      show "?ext = ?ext" and "?u = ?u" and "?evalr' = ?evalr'"
        by (rule refl)+
      show "undo s1 call ?ext = (?u, ?s2)"
        by (rule u)
      show "gate_and_execute d s call evalr = ((?evalr', Some x), ?s2)"
        by (rule g)
      show "dict_get (receipt ?evalr') ''post_commit_failure'' = Some (PyBool True)"
        by (rule d1)
      show "dict_get (receipt ?evalr') ''undo'' = Some (PyDict ?u)"
        by (rule d2)
      show "\<forall>k. k \<noteq> ''post_commit_failure'' \<and> k \<noteq> ''undo'' \<longrightarrow>
          dict_get (receipt ?evalr') k = dict_get (receipt evalr) k"
        by (rule d3)
      show "\<exists>r. get_record ?s2 (system call) ?ext = Some r \<and> deleted r"
        by (rule del')
    qed
    then show ?thesis
      by (intro exI)
  qed
  have fin: "\<exists>ext undo_res.
         ext = external_id (fst (execute d s call)) \<and>
         undo_res = [(''ok'', PyBool True), (''undo_id'', PyStr (''undo:'' @ ext))] \<and>
         undo (snd (execute d s call)) call ext =
           (undo_res, snd (commit_if_allowed d s call rcpt)) \<and>
         fst (commit_if_allowed d s call rcpt) = Some (fst (execute d s call)) \<and>
         (\<exists>r. get_record (snd (commit_if_allowed d s call rcpt)) (system call) ext = Some r \<and>
              deleted r)"
    if commit: "r_decision rcpt = F_COMMIT \<and> status rcpt = ''success''"
  proof -
    have c: "commit_if_allowed d s call rcpt = (Some x, ?s2)"
      using commit flag by (simp add: commit_if_allowed_def execute_eq e u)
    have sc: "snd (commit_if_allowed d s call rcpt) = ?s2"
      and fc: "fst (commit_if_allowed d s call rcpt) = Some x"
      by (simp_all add: c)
    have "?ext = external_id (fst (execute d s call)) \<and>
         ?u = [(''ok'', PyBool True), (''undo_id'', PyStr (''undo:'' @ ?ext))] \<and>
         undo (snd (execute d s call)) call ?ext =
           (?u, snd (commit_if_allowed d s call rcpt)) \<and>
         fst (commit_if_allowed d s call rcpt) = Some (fst (execute d s call)) \<and>
         (\<exists>r. get_record (snd (commit_if_allowed d s call rcpt)) (system call) ?ext = Some r \<and>
              deleted r)"
      unfolding y sc fc
    proof (intro conjI)
      show "?ext = ?ext" and "?u = ?u" and "Some x = Some x"
        by (rule refl)+
      show "undo s1 call ?ext = (?u, ?s2)"
        by (rule u)
      show "\<exists>r. get_record ?s2 (system call) ?ext = Some r \<and> deleted r"
        by (rule del')
    qed
    then show ?thesis
      by (intro exI)
  qed
  have pr: "printed (replay_schedule A env [] [call] ad) =
          [(rcpt, fst (commit_if_allowed (env 0) MockSystems_init call rcpt))] \<and>
        systems_after (replay_schedule A env [] [call] ad) =
          snd (commit_if_allowed (env 0) MockSystems_init call rcpt)"
    if i: "intercept A ad call = (Inr rcpt, ad')"
    by (simp add: replay_schedule_def Let_def at_step_def i case_prod_beta)
  show ?thesis
  proof (intro conjI impI)
    assume "decision evalr = COMMIT \<and> commit_allowed evalr"
    then show "\<exists>ext undo_res evalr'.
         ext = external_id (fst (execute_direct d s call)) \<and>
         undo_res = [(''ok'', PyBool True), (''undo_id'', PyStr (''undo:'' @ ext))] \<and>
         undo (snd (execute_direct d s call)) call ext =
           (undo_res, snd (gate_and_execute d s call evalr)) \<and>
         gate_and_execute d s call evalr =
           ((evalr', Some (fst (execute_direct d s call))),
            snd (undo (snd (execute_direct d s call)) call ext)) \<and>
         evalr' = \<lparr>decision = UNDO,
                   message = ''Post-commit failure detected; compensating undo executed'',
                   commit_allowed = False,
                   required_approvals = 0,
                   receipt = dict_merge (receipt evalr)
                     [(''post_commit_failure'', PyBool True), (''undo'', PyDict undo_res)]\<rparr> \<and>
         dict_get (receipt evalr') ''post_commit_failure'' = Some (PyBool True) \<and>
         dict_get (receipt evalr') ''undo'' = Some (PyDict undo_res) \<and>
         (\<forall>k. k \<noteq> ''post_commit_failure'' \<and> k \<noteq> ''undo'' \<longrightarrow>
              dict_get (receipt evalr') k = dict_get (receipt evalr) k) \<and>
         (\<exists>r. get_record (snd (gate_and_execute d s call evalr)) (system call) ext = Some r \<and>
              deleted r)"
      by (rule amr)
  next
    assume "r_decision rcpt = F_COMMIT \<and> status rcpt = ''success''"
    then show "\<exists>ext undo_res.
         ext = external_id (fst (execute d s call)) \<and>
         undo_res = [(''ok'', PyBool True), (''undo_id'', PyStr (''undo:'' @ ext))] \<and>
         undo (snd (execute d s call)) call ext =
           (undo_res, snd (commit_if_allowed d s call rcpt)) \<and>
         fst (commit_if_allowed d s call rcpt) = Some (fst (execute d s call)) \<and>
         (\<exists>r. get_record (snd (commit_if_allowed d s call rcpt)) (system call) ext = Some r \<and>
              deleted r)"
      by (rule fin)
  next
    assume i: "intercept A ad call = (Inr rcpt, ad')"
    from pr [OF i] show "printed (replay_schedule A env [] [call] ad) =
          [(rcpt, fst (commit_if_allowed (env 0) MockSystems_init call rcpt))]"
      by (rule conjunct1)
    from pr [OF i] show "systems_after (replay_schedule A env [] [call] ad) =
          snd (commit_if_allowed (env 0) MockSystems_init call rcpt)"
      by (rule conjunct2)
  qed
qed

theorem post_commit_failure_undone_witness:
  "py_bool (params_get call_ins_t1_pay ''force_post_commit_failure'' (PBool False)) \<and>
   idempotency MockSystems_init (action_id call_ins_t1_pay) = None \<and>
   decision commit_ins_t1_pay = COMMIT \<and> commit_allowed commit_ins_t1_pay \<and>
   decision (fst (fst (gate_and_execute (env0 0) MockSystems_init call_ins_t1_pay commit_ins_t1_pay))) = UNDO \<and>
   \<not> commit_allowed (fst (fst (gate_and_execute (env0 0) MockSystems_init call_ins_t1_pay commit_ins_t1_pay))) \<and>
   dict_get (receipt (fst (fst (gate_and_execute (env0 0) MockSystems_init call_ins_t1_pay commit_ins_t1_pay))))
       ''undo'' =
     Some (PyDict [(''ok'', PyBool True), (''undo_id'', PyStr ''undo:stripe:0123456789'')]) \<and>
   (\<exists>r. get_record (snd (gate_and_execute (env0 0) MockSystems_init call_ins_t1_pay commit_ins_t1_pay))
          ''stripe'' ''stripe:0123456789'' = Some r \<and> deleted r) \<and>
   intercept adapter_commit_all [] call_ins_t1_pay =
     (Inr \<lparr>r_decision = F_COMMIT, status = ''success'', r_message = ''ok'', r_receipt = []\<rparr>, []) \<and>
   (\<exists>r. get_record (snd (commit_if_allowed (env0 0) MockSystems_init call_ins_t1_pay
            \<lparr>r_decision = F_COMMIT, status = ''success'', r_message = ''ok'', r_receipt = []\<rparr>))
          ''stripe'' ''stripe:0123456789'' = Some r \<and> deleted r) \<and>
   printed (replay_schedule adapter_commit_all env0 [] [call_ins_t1_pay] []) =
     [(\<lparr>r_decision = F_COMMIT, status = ''success'', r_message = ''ok'', r_receipt = []\<rparr>,
       Some \<lparr>ok = True, external_id = ''stripe:0123456789'', idempotent_replay = False\<rparr>)] \<and>
   (\<exists>r. get_record (systems_after (replay_schedule adapter_commit_all env0 [] [call_ins_t1_pay] []))
          ''stripe'' ''stripe:0123456789'' = Some r \<and> deleted r)"
proof -
  let ?g = "gate_and_execute (env0 0) MockSystems_init call_ins_t1_pay commit_ins_t1_pay"
  let ?rc = "\<lparr>r_decision = F_COMMIT, status = ''success'', r_message = ''ok'', r_receipt = []\<rparr>"
  let ?c = "commit_if_allowed (env0 0) MockSystems_init call_ins_t1_pay ?rc"
  let ?run = "replay_schedule adapter_commit_all env0 [] [call_ins_t1_pay] []"
  have c: "decision commit_ins_t1_pay = COMMIT \<and> commit_allowed commit_ins_t1_pay"
    by (simp add: commit_ins_t1_pay_def)
  have rc: "r_decision ?rc = F_COMMIT \<and> status ?rc = ''success''"
    by simp
  have f: "py_bool (params_get call_ins_t1_pay ''force_post_commit_failure'' (PBool False))"
    by (simp add: params_get_def call_ins_t1_pay_def)
  have n: "idempotency MockSystems_init (action_id call_ins_t1_pay) = None"
    by (simp add: MockSystems_init_def)
  then have h: "idempotency MockSystems_init (action_id call_ins_t1_pay) = None \<or>
      (\<exists>e r. idempotency MockSystems_init (action_id call_ins_t1_pay) = Some e \<and>
         records_of MockSystems_init (system call_ins_t1_pay) e = Some r)"
    by (rule disjI1)
  have i: "intercept adapter_commit_all [] call_ins_t1_pay = (Inr ?rc, [])"
    by (simp add: adapter_commit_all_def)
  have x: "fst (execute_direct (env0 0) MockSystems_init call_ins_t1_pay) =
      \<lparr>ok = True, external_id = ''stripe:0123456789'', idempotent_replay = False\<rparr>"
    by (simp add: execute_direct_def MockSystems_init_def call_ins_t1_pay_def env0_def new_id_def Let_def)
  have y: "fst (execute (env0 0) MockSystems_init call_ins_t1_pay) =
      \<lparr>ok = True, external_id = ''stripe:0123456789'', idempotent_replay = False\<rparr>"
    by (simp add: execute_eq x)
  have sys: "system call_ins_t1_pay = ''stripe''"
    by (simp add: call_ins_t1_pay_def)
  note w = post_commit_failure_undone [OF f h, where d = "env0 0" and evalr = commit_ins_t1_pay
      and rcpt = ?rc and A = adapter_commit_all and ad = "[]" and ad' = "[]" and env = env0]
  from w have w1: "decision commit_ins_t1_pay = COMMIT \<and> commit_allowed commit_ins_t1_pay \<longrightarrow>
      (\<exists>ext undo_res evalr'.
         ext = external_id (fst (execute_direct (env0 0) MockSystems_init call_ins_t1_pay)) \<and>
         undo_res = [(''ok'', PyBool True), (''undo_id'', PyStr (''undo:'' @ ext))] \<and>
         undo (snd (execute_direct (env0 0) MockSystems_init call_ins_t1_pay)) call_ins_t1_pay ext =
           (undo_res, snd ?g) \<and>
         ?g = ((evalr', Some (fst (execute_direct (env0 0) MockSystems_init call_ins_t1_pay))),
            snd (undo (snd (execute_direct (env0 0) MockSystems_init call_ins_t1_pay)) call_ins_t1_pay ext)) \<and>
         evalr' = \<lparr>decision = UNDO,
                   message = ''Post-commit failure detected; compensating undo executed'',
                   commit_allowed = False,
                   required_approvals = 0,
                   receipt = dict_merge (receipt commit_ins_t1_pay)
                     [(''post_commit_failure'', PyBool True), (''undo'', PyDict undo_res)]\<rparr> \<and>
         dict_get (receipt evalr') ''post_commit_failure'' = Some (PyBool True) \<and>
         dict_get (receipt evalr') ''undo'' = Some (PyDict undo_res) \<and>
         (\<forall>k. k \<noteq> ''post_commit_failure'' \<and> k \<noteq> ''undo'' \<longrightarrow>
              dict_get (receipt evalr') k = dict_get (receipt commit_ins_t1_pay) k) \<and>
         (\<exists>r. get_record (snd ?g) (system call_ins_t1_pay) ext = Some r \<and> deleted r))"
    by (rule conjunct1)
  from w1 [THEN mp, OF c] obtain ext undo_res evalr' where
    a0: "ext = external_id (fst (execute_direct (env0 0) MockSystems_init call_ins_t1_pay)) \<and>
         undo_res = [(''ok'', PyBool True), (''undo_id'', PyStr (''undo:'' @ ext))] \<and>
         undo (snd (execute_direct (env0 0) MockSystems_init call_ins_t1_pay)) call_ins_t1_pay ext =
           (undo_res, snd ?g) \<and>
         ?g = ((evalr', Some (fst (execute_direct (env0 0) MockSystems_init call_ins_t1_pay))),
            snd (undo (snd (execute_direct (env0 0) MockSystems_init call_ins_t1_pay)) call_ins_t1_pay ext)) \<and>
         evalr' = \<lparr>decision = UNDO,
                   message = ''Post-commit failure detected; compensating undo executed'',
                   commit_allowed = False,
                   required_approvals = 0,
                   receipt = dict_merge (receipt commit_ins_t1_pay)
                     [(''post_commit_failure'', PyBool True), (''undo'', PyDict undo_res)]\<rparr> \<and>
         dict_get (receipt evalr') ''post_commit_failure'' = Some (PyBool True) \<and>
         dict_get (receipt evalr') ''undo'' = Some (PyDict undo_res) \<and>
         (\<forall>k. k \<noteq> ''post_commit_failure'' \<and> k \<noteq> ''undo'' \<longrightarrow>
              dict_get (receipt evalr') k = dict_get (receipt commit_ins_t1_pay) k) \<and>
         (\<exists>r. get_record (snd ?g) (system call_ins_t1_pay) ext = Some r \<and> deleted r)"
    by (elim exE)
  note a = a0 [THEN conjunct1] a0 [THEN conjunct2, THEN conjunct1]
    a0 [THEN conjunct2, THEN conjunct2, THEN conjunct2, THEN conjunct1]
    a0 [THEN conjunct2, THEN conjunct2, THEN conjunct2, THEN conjunct2, THEN conjunct1]
    a0 [THEN conjunct2, THEN conjunct2, THEN conjunct2, THEN conjunct2, THEN conjunct2,
        THEN conjunct2, THEN conjunct1]
    a0 [THEN conjunct2, THEN conjunct2, THEN conjunct2, THEN conjunct2, THEN conjunct2,
        THEN conjunct2, THEN conjunct2, THEN conjunct2]
  have ext: "ext = ''stripe:0123456789''"
    using a(1) x by simp
  have fg: "fst (fst ?g) = evalr'"
    unfolding a(3) by simp
  have d: "decision (fst (fst ?g)) = UNDO" and na: "\<not> commit_allowed (fst (fst ?g))"
    unfolding fg a(4) by simp_all
  have ur: "dict_get (receipt (fst (fst ?g))) ''undo'' =
     Some (PyDict [(''ok'', PyBool True), (''undo_id'', PyStr ''undo:stripe:0123456789'')])"
    unfolding fg using a(5) a(2) ext by simp
  have rr: "\<exists>r. get_record (snd ?g) ''stripe'' ''stripe:0123456789'' = Some r \<and> deleted r"
    using a(6) unfolding ext sys .
  from w have w2: "r_decision ?rc = F_COMMIT \<and> status ?rc = ''success'' \<longrightarrow>
      (\<exists>ext undo_res.
         ext = external_id (fst (execute (env0 0) MockSystems_init call_ins_t1_pay)) \<and>
         undo_res = [(''ok'', PyBool True), (''undo_id'', PyStr (''undo:'' @ ext))] \<and>
         undo (snd (execute (env0 0) MockSystems_init call_ins_t1_pay)) call_ins_t1_pay ext =
           (undo_res, snd ?c) \<and>
         fst ?c = Some (fst (execute (env0 0) MockSystems_init call_ins_t1_pay)) \<and>
         (\<exists>r. get_record (snd ?c) (system call_ins_t1_pay) ext = Some r \<and> deleted r))"
    by (rule conjunct2 [THEN conjunct1])
  from w2 [THEN mp, OF rc] obtain ext2 undo_res2 where
    b0: "ext2 = external_id (fst (execute (env0 0) MockSystems_init call_ins_t1_pay)) \<and>
         undo_res2 = [(''ok'', PyBool True), (''undo_id'', PyStr (''undo:'' @ ext2))] \<and>
         undo (snd (execute (env0 0) MockSystems_init call_ins_t1_pay)) call_ins_t1_pay ext2 =
           (undo_res2, snd ?c) \<and>
         fst ?c = Some (fst (execute (env0 0) MockSystems_init call_ins_t1_pay)) \<and>
         (\<exists>r. get_record (snd ?c) (system call_ins_t1_pay) ext2 = Some r \<and> deleted r)"
    by (elim exE)
  note b = b0 [THEN conjunct1]
    b0 [THEN conjunct2, THEN conjunct2, THEN conjunct2, THEN conjunct1]
    b0 [THEN conjunct2, THEN conjunct2, THEN conjunct2, THEN conjunct2]
  have ext2: "ext2 = ''stripe:0123456789''"
    using b(1) y by simp
  have cr: "\<exists>r. get_record (snd ?c) ''stripe'' ''stripe:0123456789'' = Some r \<and> deleted r"
    using b(3) unfolding ext2 sys .
  have fc: "fst ?c = Some \<lparr>ok = True, external_id = ''stripe:0123456789'', idempotent_replay = False\<rparr>"
    using b(2) y by simp
  from w have w3: "intercept adapter_commit_all [] call_ins_t1_pay = (Inr ?rc, []) \<longrightarrow>
        printed ?run = [(?rc, fst ?c)] \<and> systems_after ?run = snd ?c"
    by (rule conjunct2 [THEN conjunct2])
  from w3 i have p: "printed ?run = [(?rc, fst ?c)]" and sa: "systems_after ?run = snd ?c"
    by simp_all
  have p': "printed ?run =
     [(?rc, Some \<lparr>ok = True, external_id = ''stripe:0123456789'', idempotent_replay = False\<rparr>)]"
    unfolding p fc by (rule refl)
  have q: "\<exists>r. get_record (systems_after ?run) ''stripe'' ''stripe:0123456789'' = Some r \<and> deleted r"
    unfolding sa by (rule cr)
  note c1 = c [THEN conjunct1] and c2 = c [THEN conjunct2]
  from f n c1 c2 d na ur rr i cr p' q show ?thesis
    by (intro conjI)
qed

lemma evaluate_ins_t1_pay: "evaluate NuvallaHook_init call_ins_t1_pay = Inr commit_ins_t1_pay"
  by (simp add: evaluate_def call_ins_t1_pay_def params_get_def commit_ins_t1_pay_def
      approvals_for_def NuvallaHook_init_def str_of_int_examples)

text \<open>
  The claim C6 asks that compensating a call that is not committed be rejected. The
  payment \<^verbatim>\<open>fin_t2_pay\<close> is pending approval and was never executed; \<^verbatim>\<open>undo\<close> for it
  with the external id of the committed payment \<^verbatim>\<open>fin_t5_pay\<close>, a record of the same
  system, succeeds and marks that record deleted.
\<close>

theorem undo_of_pending_call_counterexample:
  "evaluate NuvallaHook_init call_fin_t2_pay =
     Inr \<lparr>decision = REQUIRE_APPROVAL, message = ''Payment $25000 requires CFO approval'',
          commit_allowed = False, required_approvals = 1,
          receipt = [(''policy'', PyStr ''payment_threshold''), (''amount_usd'', PyInt 25000)]\<rparr> \<and>
   idempotency (snd (execute_direct (env0 0) MockSystems_init call_fin_t5_pay))
     (action_id call_fin_t2_pay) = None \<and>
   fst (undo (snd (execute_direct (env0 0) MockSystems_init call_fin_t5_pay)) call_fin_t2_pay
          ''stripe:0123456789'') =
     [(''ok'', PyBool True), (''undo_id'', PyStr ''undo:stripe:0123456789'')] \<and>
   get_record (snd (execute_direct (env0 0) MockSystems_init call_fin_t5_pay))
       ''stripe'' ''stripe:0123456789'' =
     Some \<lparr>rec_operation = ''payment.execute'', rec_params = params call_fin_t5_pay,
           rec_created_at_ms = 1700000000000, deleted = False\<rparr> \<and>
   get_record (snd (undo (snd (execute_direct (env0 0) MockSystems_init call_fin_t5_pay))
          call_fin_t2_pay ''stripe:0123456789'')) ''stripe'' ''stripe:0123456789'' =
     Some \<lparr>rec_operation = ''payment.execute'', rec_params = params call_fin_t5_pay,
           rec_created_at_ms = 1700000000000, deleted = True\<rparr>"
proof -
  let ?r = "\<lparr>rec_operation = ''payment.execute'', rec_params = params call_fin_t5_pay,
           rec_created_at_ms = 1700000000000, deleted = False\<rparr>"
  let ?s1 = "snd (execute_direct (env0 0) MockSystems_init call_fin_t5_pay)"
  have ev: "evaluate NuvallaHook_init call_fin_t2_pay =
     Inr \<lparr>decision = REQUIRE_APPROVAL, message = ''Payment $25000 requires CFO approval'',
          commit_allowed = False, required_approvals = 1,
          receipt = [(''policy'', PyStr ''payment_threshold''), (''amount_usd'', PyInt 25000)]\<rparr>"
    by (simp add: evaluate_def call_fin_t2_pay_def params_get_def
        approvals_for_def NuvallaHook_init_def str_of_int_examples)
  have idem: "idempotency ?s1 (action_id call_fin_t2_pay) = None"
    by (simp add: execute_direct_def MockSystems_init_def Let_def call_fin_t5_pay_def call_fin_t2_pay_def)
  have some: "records_of ?s1 (system call_fin_t2_pay) ''stripe:0123456789'' = Some ?r"
    by (simp add: execute_direct_def MockSystems_init_def Let_def records_of_def new_id_def
        env0_def call_fin_t5_pay_def call_fin_t2_pay_def)
  have sys: "system call_fin_t2_pay = ''stripe''"
    by (simp add: call_fin_t2_pay_def)
  have u: "undo ?s1 call_fin_t2_pay ''stripe:0123456789'' =
     ([(''ok'', PyBool True), (''undo_id'', PyStr (''undo:'' @ ''stripe:0123456789''))],
      ?s1\<lparr>state := (state ?s1)(system call_fin_t2_pay \<mapsto>
          (records_of ?s1 (system call_fin_t2_pay))(''stripe:0123456789'' \<mapsto> ?r\<lparr>deleted := True\<rparr>))\<rparr>)"
    using some by (rule undo_found)
  have before: "get_record ?s1 ''stripe'' ''stripe:0123456789'' = Some ?r"
    using some by (simp add: get_record_def sys)
  have after: "get_record (snd (undo ?s1 call_fin_t2_pay ''stripe:0123456789'')) ''stripe''
      ''stripe:0123456789'' = Some (?r\<lparr>deleted := True\<rparr>)"
    unfolding u by (simp add: get_record_def records_of_upd sys)
  have res: "fst (undo ?s1 call_fin_t2_pay ''stripe:0123456789'') =
     [(''ok'', PyBool True), (''undo_id'', PyStr ''undo:stripe:0123456789'')]"
    unfolding u by simp
  from ev idem res before after show ?thesis by simp
qed

lemma undo_rejected_iff:
  "fst (undo s call ext) = [(''ok'', PyBool False), (''error'', PyStr ''record_not_found'')] \<longleftrightarrow>
     records_of s (system call) ext = None"
  by (simp add: undo_def split: option.splits)

text \<open>
  C6, as the code has it. \<^verbatim>\<open>undo\<close> looks at the record under the call's system and the
  external id, not at the state of the call: it answers \<^verbatim>\<open>record_not_found\<close> exactly
  when there is no such record, and then changes nothing; so it does for every
  external id when the call's system holds no record at all. The governed step undoes
  only inside the branch of a \<^verbatim>\<open>COMMIT\<close> with \<^verbatim>\<open>commit_allowed\<close>: on any other evaluation
  it executes nothing, undoes nothing and leaves the systems object as it is.
\<close>

theorem undo_rejects_unknown_record:
  "(fst (undo s call ext) = [(''ok'', PyBool False), (''error'', PyStr ''record_not_found'')] \<longleftrightarrow>
      get_record s (system call) ext = None) \<and>
   (get_record s (system call) ext = None \<longrightarrow>
      undo s call ext = ([(''ok'', PyBool False), (''error'', PyStr ''record_not_found'')], s)) \<and>
   (state s (system call) = None \<longrightarrow>
      undo s call ext = ([(''ok'', PyBool False), (''error'', PyStr ''record_not_found'')], s)) \<and>
   (\<not> (decision evalr = COMMIT \<and> commit_allowed evalr) \<longrightarrow>
      gate_and_execute d s call evalr = ((evalr, None), s))"
proof (intro conjI impI)
  show "fst (undo s call ext) = [(''ok'', PyBool False), (''error'', PyStr ''record_not_found'')] \<longleftrightarrow>
      get_record s (system call) ext = None"
    by (simp add: undo_rejected_iff get_record_def)
next
  assume "get_record s (system call) ext = None"
  then show "undo s call ext = ([(''ok'', PyBool False), (''error'', PyStr ''record_not_found'')], s)"
    by (simp add: undo_missing get_record_def)
next
  assume "state s (system call) = None"
  then have "records_of s (system call) ext = None"
    by (simp add: records_of_def)
  then show "undo s call ext = ([(''ok'', PyBool False), (''error'', PyStr ''record_not_found'')], s)"
    by (rule undo_missing)
next
  assume "\<not> (decision evalr = COMMIT \<and> commit_allowed evalr)"
  then show "gate_and_execute d s call evalr = ((evalr, None), s)"
    by (rule gate_closed)
qed

theorem undo_rejects_unknown_record_witness:
  "get_record MockSystems_init (system call_fin_t1_vendor) ''netsuite:0123456789'' = None \<and>
   state MockSystems_init (system call_fin_t1_vendor) = None \<and>
   undo MockSystems_init call_fin_t1_vendor ''netsuite:0123456789'' =
     ([(''ok'', PyBool False), (''error'', PyStr ''record_not_found'')], MockSystems_init) \<and>
   gate_and_execute (env0 0) MockSystems_init call_fin_t1_vendor
       \<lparr>decision = BLOCK, message = ''Vendor creation blocked: KYC not passed'',
        commit_allowed = False, required_approvals = 0,
        receipt = [(''policy'', PyStr ''vendor_kyc_required'')]\<rparr> =
     ((\<lparr>decision = BLOCK, message = ''Vendor creation blocked: KYC not passed'',
        commit_allowed = False, required_approvals = 0,
        receipt = [(''policy'', PyStr ''vendor_kyc_required'')]\<rparr>, None), MockSystems_init)"
proof -
  let ?blk = "\<lparr>decision = BLOCK, message = ''Vendor creation blocked: KYC not passed'',
        commit_allowed = False, required_approvals = 0,
        receipt = [(''policy'', PyStr ''vendor_kyc_required'')]\<rparr>"
  have n: "get_record MockSystems_init (system call_fin_t1_vendor) ''netsuite:0123456789'' = None"
    and m: "state MockSystems_init (system call_fin_t1_vendor) = None"
    by (simp_all add: get_record_def records_of_def MockSystems_init_def)
  have b: "\<not> (decision ?blk = COMMIT \<and> commit_allowed ?blk)"
    by simp
  note w = undo_rejects_unknown_record [where s = MockSystems_init and call = call_fin_t1_vendor
      and ext = "''netsuite:0123456789''" and evalr = ?blk and d = "env0 0"]
  from w n have u: "undo MockSystems_init call_fin_t1_vendor ''netsuite:0123456789'' =
     ([(''ok'', PyBool False), (''error'', PyStr ''record_not_found'')], MockSystems_init)"
    by blast
  from w b have g: "gate_and_execute (env0 0) MockSystems_init call_fin_t1_vendor ?blk =
     ((?blk, None), MockSystems_init)"
    by blast
  from n m u g show ?thesis by blast
qed

section \<open>Properties of the scheduled delivery\<close>

lemma at_step_upd:
  "at_step (m(j \<mapsto> at_step m j @ [a])) k = (if k = j then at_step m k @ [a] else at_step m k)"
  by (simp add: at_step_def)

lemma due_Cons: "due ((j, a) # sched) k = (if j = k then a # due sched k else due sched k)"
  by (simp add: due_def)

lemma at_step_approvals_by_step:
  "at_step (approvals_by_step m sched) k = at_step m k @ due sched k"
proof (induction sched arbitrary: m)
  case Nil
  show ?case by (simp add: due_def)
next
  case (Cons p sched)
  obtain j a where p: "p = (j, a)" by (cases p)
  have "at_step (approvals_by_step m ((j, a) # sched)) k =
      at_step (approvals_by_step (m(j \<mapsto> at_step m j @ [a])) sched) k"
    by (simp add: at_step_def)
  also have "\<dots> = at_step (m(j \<mapsto> at_step m j @ [a])) k @ due sched k"
    by (rule Cons.IH)
  also have "\<dots> = at_step m k @ due ((j, a) # sched) k"
    unfolding at_step_upd due_Cons by simp
  finally show ?case
    by (simp add: p)
qed

lemma at_step_index: "at_step (approvals_by_step Map.empty sched) k = due sched k"
  by (simp add: at_step_approvals_by_step) (simp add: at_step_def)


text \<open>
  A run of the adapter over two sequences of events in a row is the run over the first,
  and, when that raised nothing, the run over the second from the state it left. The
  events carried out are a prefix of the events given, all of them when nothing raised;
  approvals alone return no receipt.
\<close>

lemma adapter_run_append:
  "adapter_run A ad (xs @ ys) =
     (case adapter_run A ad xs of
        (d1, r1, ad1, Some e) \<Rightarrow> (d1, r1, ad1, Some e)
      | (d1, r1, ad1, None) \<Rightarrow>
          (case adapter_run A ad1 ys of (d2, r2, ad2, err) \<Rightarrow> (d1 @ d2, r1 @ r2, ad2, err)))"
proof (induction xs arbitrary: ad)
  case Nil
  show ?case by (simp split: prod.splits option.splits)
next
  case (Cons x xs)
  show ?case
  proof (cases x)
    case (Approval_submitted a)
    obtain r ad1 where s: "submit_approval A ad a = (r, ad1)"
      by (cases "submit_approval A ad a")
    show ?thesis
      by (cases r)
         (simp_all add: Approval_submitted s Cons.IH [of ad1] split: prod.splits option.splits)
  next
    case (Call_intercepted c)
    obtain r ad1 where s: "intercept A ad c = (r, ad1)"
      by (cases "intercept A ad c")
    show ?thesis
      by (cases r)
         (simp_all add: Call_intercepted s Cons.IH [of ad1] split: prod.splits option.splits)
  qed
qed

lemma adapter_run_prefix:
  "prefix (fst (adapter_run A ad evs)) evs \<and>
   (snd (snd (snd (adapter_run A ad evs))) = None \<longrightarrow> fst (adapter_run A ad evs) = evs)"
proof (induction evs arbitrary: ad)
  case Nil
  show ?case by simp
next
  case (Cons x xs)
  show ?case
  proof (cases x)
    case (Approval_submitted a)
    obtain r ad1 where s: "submit_approval A ad a = (r, ad1)"
      by (cases "submit_approval A ad a")
    show ?thesis
      using Cons.IH [of ad1]
      by (cases r) (auto simp add: Approval_submitted s split: prod.splits)
  next
    case (Call_intercepted c)
    obtain r ad1 where s: "intercept A ad c = (r, ad1)"
      by (cases "intercept A ad c")
    show ?thesis
      using Cons.IH [of ad1]
      by (cases r) (auto simp add: Call_intercepted s split: prod.splits)
  qed
qed

lemma adapter_run_approvals:
  "fst (snd (adapter_run A ad (map Approval_submitted as))) = []"
proof (induction as arbitrary: ad)
  case Nil
  show ?case by simp
next
  case (Cons a as)
  obtain r ad1 where s: "submit_approval A ad a = (r, ad1)"
    by (cases "submit_approval A ad a")
  show ?case
    using Cons.IH [of ad1]
    by (cases r) (auto simp add: s split: prod.splits)
qed

text \<open>
  Delivering a list of approvals runs the adapter over them, from the state it is in:
  each \<^verbatim>\<open>submit_approval\<close> is called on the state the one before left.
\<close>

lemma deliver_view:
  "raised st = None \<Longrightarrow>
   adapter_view (deliver A as st) =
     (case adapter_run A (adapter_state st) (map Approval_submitted as) of
        (d, rs, ad1, err) \<Rightarrow> (log st @ d, map fst (printed st) @ rs, ad1, err))"
proof (induction as arbitrary: st)
  case Nil
  then show ?case by (simp add: adapter_view_def)
next
  case (Cons a as)
  obtain r ad1 where s: "submit_approval A (adapter_state st) a = (r, ad1)"
    by (cases "submit_approval A (adapter_state st) a")
  show ?case
  proof (cases r)
    case (Some e)
    then show ?thesis
      by (simp add: s adapter_view_def)
  next
    case None
    let ?st1 = "st\<lparr>log := log st @ [Approval_submitted a], adapter_state := ad1\<rparr>"
    have r1: "raised ?st1 = None"
      using Cons.prems by simp
    have d: "deliver A (a # as) st = deliver A as ?st1"
      by (simp add: s None)
    have v: "adapter_view (deliver A as ?st1) =
        (case adapter_run A (adapter_state ?st1) (map Approval_submitted as) of
          (d, rs, ad2, err) \<Rightarrow> (log ?st1 @ d, map fst (printed ?st1) @ rs, ad2, err))"
      using r1 by (rule Cons.IH)
    show ?thesis
      unfolding d v by (simp add: s None split: prod.splits)
  qed
qed

text \<open>
  The loop and the delivery after the last call, from any run state in which nothing
  was raised, run the adapter over the specified order counted from \<open>idx - 1\<close>.
\<close>

lemma fintech_steps_view:
  "raised st = None \<Longrightarrow>
   adapter_view
     (let st' = fintech_steps A (approvals_by_step Map.empty sched) env idx calls st
      in if raised st' \<noteq> None then st'
         else deliver A (at_step (approvals_by_step Map.empty sched) (idx - 1 + int (length calls))) st') =
     (case adapter_run A (adapter_state st) (delivery_order sched (idx - 1) calls) of
        (d, rs, ad1, err) \<Rightarrow> (log st @ d, map fst (printed st) @ rs, ad1, err))"
proof (induction calls arbitrary: idx st)
  case Nil
  show ?case
    using Nil.prems by (simp add: deliver_view at_step_index)
next
  case (Cons call calls)
  let ?by = "approvals_by_step Map.empty sched"
  let ?st1 = "deliver A (at_step ?by (idx - 1)) st"
  obtain d1 rs1 ad1 err1 where
    r1: "adapter_run A (adapter_state st) (map Approval_submitted (due sched (idx - 1))) =
      (d1, rs1, ad1, err1)"
    by (cases "adapter_run A (adapter_state st) (map Approval_submitted (due sched (idx - 1)))")
  have v1: "adapter_view ?st1 = (log st @ d1, map fst (printed st) @ rs1, ad1, err1)"
    using Cons.prems by (simp add: deliver_view at_step_index r1)
  have l1: "log ?st1 = log st @ d1" and p1: "map fst (printed ?st1) = map fst (printed st) @ rs1"
    and a1: "adapter_state ?st1 = ad1" and e1: "raised ?st1 = err1"
    using v1 by (simp_all add: adapter_view_def)
  have ord: "delivery_order sched (idx - 1) (call # calls) =
      map Approval_submitted (due sched (idx - 1)) @
      (Call_intercepted call # delivery_order sched idx calls)"
    by simp
  show ?case
  proof (cases err1)
    case (Some e)
    have "fintech_steps A ?by env idx (call # calls) st = ?st1"
      by (simp add: Let_def e1 Some)
    then show ?thesis
      unfolding ord adapter_run_append r1
      by (simp add: Let_def e1 Some v1)
  next
    case None
    obtain r ad2 where i: "intercept A ad1 call = (r, ad2)"
      by (cases "intercept A ad1 call")
    show ?thesis
    proof (cases r)
      case (Inl e)
      have f: "fintech_steps A ?by env idx (call # calls) st =
          ?st1\<lparr>log := log ?st1 @ [Call_intercepted call], adapter_state := ad2, raised := Some e\<rparr>"
        by (simp add: Let_def e1 None a1 i Inl)
      show ?thesis
        unfolding ord adapter_run_append r1 f
        by (simp add: Let_def None i Inl adapter_view_def l1 p1)
    next
      case (Inr rcpt)
      obtain commit_res s2 where
        c: "commit_if_allowed (env (nat (idx - 1))) (systems_after ?st1) call rcpt = (commit_res, s2)"
        by (cases "commit_if_allowed (env (nat (idx - 1))) (systems_after ?st1) call rcpt")
      let ?st2 = "?st1\<lparr>log := log ?st1 @ [Call_intercepted call],
                       printed := printed ?st1 @ [(rcpt, commit_res)],
                       systems_after := s2, adapter_state := ad2\<rparr>"
      have f: "fintech_steps A ?by env idx (call # calls) st =
          fintech_steps A ?by env (idx + 1) calls ?st2"
        by (simp add: Let_def e1 None a1 i Inr c)
      have r2: "raised ?st2 = None"
        by (simp add: e1 None)
      have k: "idx - 1 + int (length (call # calls)) = idx + 1 - 1 + int (length calls)"
        by simp
      have ih: "adapter_view
         (let st' = fintech_steps A ?by env (idx + 1) calls ?st2
          in if raised st' \<noteq> None then st'
             else deliver A (at_step ?by (idx + 1 - 1 + int (length calls))) st') =
         (case adapter_run A (adapter_state ?st2) (delivery_order sched (idx + 1 - 1) calls) of
            (d, rs, ad3, err) \<Rightarrow> (log ?st2 @ d, map fst (printed ?st2) @ rs, ad3, err))"
        using r2 by (rule Cons.IH)
      have s2: "adapter_state ?st2 = ad2" and l2: "log ?st2 = (log st @ d1) @ [Call_intercepted call]"
        and p2: "map fst (printed ?st2) = (map fst (printed st) @ rs1) @ [rcpt]"
        by (simp_all add: l1 p1)
      show ?thesis
        unfolding ord adapter_run_append r1 f k ih s2 l2 p2
        by (simp add: None i Inr split: prod.splits)
    qed
  qed
qed

lemma replay_schedule_view:
  "adapter_view (replay_schedule A env sched calls ad) =
     adapter_run A ad (delivery_order sched 0 calls)"
proof -
  let ?init = "\<lparr>log = [], printed = [], systems_after = MockSystems_init,
                adapter_state = ad, raised = None\<rparr>"
  let ?by = "approvals_by_step Map.empty sched"
  let ?run = "let st' = fintech_steps A ?by env 1 calls ?init
      in if raised st' \<noteq> None then st'
         else deliver A (at_step ?by (1 - 1 + int (length calls))) st'"
  have e: "replay_schedule A env sched calls ad = ?run"
    unfolding replay_schedule_def by (simp add: Let_def)
  have "raised ?init = None" by simp
  then have v: "adapter_view ?run =
     (case adapter_run A (adapter_state ?init) (delivery_order sched (1 - 1) calls) of
        (d, rs, ad1, err) \<Rightarrow> (log ?init @ d, map fst (printed ?init) @ rs, ad1, err))"
    by (rule fintech_steps_view)
  show ?thesis
    unfolding e v by (simp split: prod.splits)
qed

lemma replay_schedule_log:
  "prefix (log (replay_schedule A env sched calls ad)) (delivery_order sched 0 calls) \<and>
   (raised (replay_schedule A env sched calls ad) = None \<longrightarrow>
      log (replay_schedule A env sched calls ad) = delivery_order sched 0 calls)"
proof -
  let ?R = "replay_schedule A env sched calls ad"
  let ?D = "delivery_order sched 0 calls"
  have v: "(log ?R, map fst (printed ?R), adapter_state ?R, raised ?R) = adapter_run A ad ?D"
    using replay_schedule_view [of A env sched calls ad] by (simp only: adapter_view_def)
  have l: "log ?R = fst (adapter_run A ad ?D)"
    and r: "raised ?R = snd (snd (snd (adapter_run A ad ?D)))"
    by (simp_all add: v [symmetric])
  show ?thesis
    unfolding l r by (rule adapter_run_prefix)
qed


text \<open>
  What the specified order says about one call: the events before the call at position
  \<open>i\<close> hold the \<open>i\<close> calls before it and every approval scheduled at an index from \<open>k\<close>
  to \<open>k + i\<close>; the approvals scheduled at the index after the last call come after it.
\<close>

lemma intercepted_calls_append:
  "intercepted_calls (xs @ ys) = intercepted_calls xs @ intercepted_calls ys"
  by (induction xs rule: intercepted_calls.induct) simp_all

lemma intercepted_calls_approvals: "intercepted_calls (map Approval_submitted as) = []"
  by (induction as) simp_all

lemma mem_due: "(k, a) \<in> set sched \<Longrightarrow> a \<in> set (due sched k)"
  by (force simp add: due_def)

lemma delivery_order_last:
  "(k + int (length calls), a) \<in> set sched \<Longrightarrow>
   Approval_submitted a \<in> set (delivery_order sched k calls)"
proof (induction calls arbitrary: k)
  case Nil
  then show ?case by (simp add: mem_due)
next
  case (Cons c cs)
  have "k + int (length (c # cs)) = k + 1 + int (length cs)"
    by simp
  with Cons.prems have "(k + 1 + int (length cs), a) \<in> set sched"
    by (simp only:)
  then have "Approval_submitted a \<in> set (delivery_order sched (k + 1) cs)"
    by (rule Cons.IH)
  then show ?case by simp
qed

lemma mem_delivery_order:
  "Approval_submitted a \<in> set (delivery_order sched k calls) \<longleftrightarrow>
     (\<exists>j. (j, a) \<in> set sched \<and> k \<le> j \<and> j \<le> k + int (length calls))"
proof (induction calls arbitrary: k)
  case Nil
  show ?case by (force simp add: due_def)
next
  case (Cons c calls)
  have d: "Approval_submitted a \<in> set (map Approval_submitted (due sched k)) \<longleftrightarrow> (k, a) \<in> set sched"
    by (force simp add: due_def)
  have "Approval_submitted a \<in> set (delivery_order sched k (c # calls)) \<longleftrightarrow>
      (k, a) \<in> set sched \<or> (\<exists>j. (j, a) \<in> set sched \<and> k + 1 \<le> j \<and> j \<le> k + 1 + int (length calls))"
    using d Cons.IH [of "k + 1"] by simp
  also have "\<dots> \<longleftrightarrow> (\<exists>j. (j, a) \<in> set sched \<and> k \<le> j \<and> j \<le> k + int (length (c # calls)))"
  proof
    assume "(k, a) \<in> set sched \<or> (\<exists>j. (j, a) \<in> set sched \<and> k + 1 \<le> j \<and> j \<le> k + 1 + int (length calls))"
    then show "\<exists>j. (j, a) \<in> set sched \<and> k \<le> j \<and> j \<le> k + int (length (c # calls))"
    proof
      assume "(k, a) \<in> set sched"
      then have "(k, a) \<in> set sched \<and> k \<le> k \<and> k \<le> k + int (length (c # calls))" by simp
      then show ?thesis by (rule exI [where x = k])
    next
      assume "\<exists>j. (j, a) \<in> set sched \<and> k + 1 \<le> j \<and> j \<le> k + 1 + int (length calls)"
      then obtain j where "(j, a) \<in> set sched \<and> k + 1 \<le> j \<and> j \<le> k + 1 + int (length calls)"
        by (rule exE)
      then have "(j, a) \<in> set sched \<and> k \<le> j \<and> j \<le> k + int (length (c # calls))" by simp
      then show ?thesis by (rule exI [where x = j])
    qed
  next
    assume "\<exists>j. (j, a) \<in> set sched \<and> k \<le> j \<and> j \<le> k + int (length (c # calls))"
    then obtain j where j: "(j, a) \<in> set sched" "k \<le> j" "j \<le> k + int (length (c # calls))"
      by (elim exE conjE)
    show "(k, a) \<in> set sched \<or> (\<exists>j. (j, a) \<in> set sched \<and> k + 1 \<le> j \<and> j \<le> k + 1 + int (length calls))"
    proof (cases "j = k")
      case True
      then show ?thesis using j by simp
    next
      case False
      then have "(j, a) \<in> set sched \<and> k + 1 \<le> j \<and> j \<le> k + 1 + int (length calls)"
        using j by simp
      then have "\<exists>j. (j, a) \<in> set sched \<and> k + 1 \<le> j \<and> j \<le> k + 1 + int (length calls)"
        by (rule exI [where x = j])
      then show ?thesis by (rule disjI2)
    qed
  qed
  finally show ?case .
qed

lemma delivery_order_split:
  "i < length calls \<Longrightarrow>
   \<exists>pre post. delivery_order sched k calls = pre @ Call_intercepted (calls ! i) # post \<and>
      intercepted_calls pre = take i calls \<and>
      (\<forall>j a. (j, a) \<in> set sched \<and> k \<le> j \<and> j \<le> k + int i \<longrightarrow> Approval_submitted a \<in> set pre) \<and>
      (\<forall>a. (k + int (length calls), a) \<in> set sched \<longrightarrow> Approval_submitted a \<in> set post)"
proof (induction calls arbitrary: k i)
  case Nil
  then show ?case by simp
next
  case (Cons c cs)
  let ?due = "map Approval_submitted (due sched k)"
  show ?case
  proof (cases i)
    case 0
    let ?post = "delivery_order sched (k + 1) cs"
    have a: "delivery_order sched k (c # cs) = ?due @ Call_intercepted ((c # cs) ! i) # ?post"
      by (simp add: 0)
    have b: "intercepted_calls ?due = take i (c # cs)"
      by (simp add: 0 intercepted_calls_approvals)
    have d: "\<forall>j a. (j, a) \<in> set sched \<and> k \<le> j \<and> j \<le> k + int i \<longrightarrow> Approval_submitted a \<in> set ?due"
    proof (intro allI impI)
      fix j a assume "(j, a) \<in> set sched \<and> k \<le> j \<and> j \<le> k + int i"
      then have "(j, a) \<in> set sched" and "j = k" by (simp_all add: 0)
      then have "(k, a) \<in> set sched" by (simp only:)
      then show "Approval_submitted a \<in> set ?due" by (simp add: mem_due)
    qed
    have e: "\<forall>a. (k + int (length (c # cs)), a) \<in> set sched \<longrightarrow> Approval_submitted a \<in> set ?post"
    proof (intro allI impI)
      fix a assume "(k + int (length (c # cs)), a) \<in> set sched"
      moreover have "k + int (length (c # cs)) = k + 1 + int (length cs)"
        by simp
      ultimately have "(k + 1 + int (length cs), a) \<in> set sched"
        by (simp only:)
      then show "Approval_submitted a \<in> set ?post" by (rule delivery_order_last)
    qed
    from a b d e have "delivery_order sched k (c # cs) = ?due @ Call_intercepted ((c # cs) ! i) # ?post \<and>
      intercepted_calls ?due = take i (c # cs) \<and>
      (\<forall>j a. (j, a) \<in> set sched \<and> k \<le> j \<and> j \<le> k + int i \<longrightarrow> Approval_submitted a \<in> set ?due) \<and>
      (\<forall>a. (k + int (length (c # cs)), a) \<in> set sched \<longrightarrow> Approval_submitted a \<in> set ?post)"
      by (intro conjI)
    then have "\<exists>post. delivery_order sched k (c # cs) = ?due @ Call_intercepted ((c # cs) ! i) # post \<and>
      intercepted_calls ?due = take i (c # cs) \<and>
      (\<forall>j a. (j, a) \<in> set sched \<and> k \<le> j \<and> j \<le> k + int i \<longrightarrow> Approval_submitted a \<in> set ?due) \<and>
      (\<forall>a. (k + int (length (c # cs)), a) \<in> set sched \<longrightarrow> Approval_submitted a \<in> set post)"
      by (rule exI [where x = ?post])
    then show ?thesis
      by (rule exI [where x = ?due])
  next
    case (Suc i')
    with Cons.prems have "i' < length cs" by simp
    then have "\<exists>pre post. delivery_order sched (k + 1) cs = pre @ Call_intercepted (cs ! i') # post \<and>
      intercepted_calls pre = take i' cs \<and>
      (\<forall>j a. (j, a) \<in> set sched \<and> k + 1 \<le> j \<and> j \<le> k + 1 + int i' \<longrightarrow> Approval_submitted a \<in> set pre) \<and>
      (\<forall>a. (k + 1 + int (length cs), a) \<in> set sched \<longrightarrow> Approval_submitted a \<in> set post)"
      by (rule Cons.IH)
    then obtain pre' post' where
      ih: "delivery_order sched (k + 1) cs = pre' @ Call_intercepted (cs ! i') # post'"
        "intercepted_calls pre' = take i' cs"
        "\<forall>j a. (j, a) \<in> set sched \<and> k + 1 \<le> j \<and> j \<le> k + 1 + int i' \<longrightarrow> Approval_submitted a \<in> set pre'"
        "\<forall>a. (k + 1 + int (length cs), a) \<in> set sched \<longrightarrow> Approval_submitted a \<in> set post'"
      by (elim exE conjE)
    let ?pre = "?due @ Call_intercepted c # pre'"
    have a: "delivery_order sched k (c # cs) = ?pre @ Call_intercepted ((c # cs) ! i) # post'"
      by (simp add: Suc ih(1))
    have b: "intercepted_calls ?pre = take i (c # cs)"
      by (simp add: Suc ih(2) intercepted_calls_append intercepted_calls_approvals)
    have d: "\<forall>j a. (j, a) \<in> set sched \<and> k \<le> j \<and> j \<le> k + int i \<longrightarrow> Approval_submitted a \<in> set ?pre"
    proof (intro allI impI)
      fix j a assume h: "(j, a) \<in> set sched \<and> k \<le> j \<and> j \<le> k + int i"
      show "Approval_submitted a \<in> set ?pre"
      proof (cases "j = k")
        case True
        with h have "a \<in> set (due sched k)" by (simp add: mem_due)
        then show ?thesis by simp
      next
        case False
        with h have "(j, a) \<in> set sched \<and> k + 1 \<le> j \<and> j \<le> k + 1 + int i'"
          by (simp add: Suc)
        with ih(3) have "Approval_submitted a \<in> set pre'" by (elim allE impE) assumption+
        then show ?thesis by simp
      qed
    qed
    have e: "\<forall>a. (k + int (length (c # cs)), a) \<in> set sched \<longrightarrow> Approval_submitted a \<in> set post'"
    proof (intro allI impI)
      fix a assume "(k + int (length (c # cs)), a) \<in> set sched"
      moreover have "k + int (length (c # cs)) = k + 1 + int (length cs)"
        by simp
      ultimately have "(k + 1 + int (length cs), a) \<in> set sched"
        by (simp only:)
      with ih(4) show "Approval_submitted a \<in> set post'" by (elim allE impE) assumption+
    qed
    from a b d e have "delivery_order sched k (c # cs) = ?pre @ Call_intercepted ((c # cs) ! i) # post' \<and>
      intercepted_calls ?pre = take i (c # cs) \<and>
      (\<forall>j a. (j, a) \<in> set sched \<and> k \<le> j \<and> j \<le> k + int i \<longrightarrow> Approval_submitted a \<in> set ?pre) \<and>
      (\<forall>a. (k + int (length (c # cs)), a) \<in> set sched \<longrightarrow> Approval_submitted a \<in> set post')"
      by (intro conjI)
    then have "\<exists>post. delivery_order sched k (c # cs) = ?pre @ Call_intercepted ((c # cs) ! i) # post \<and>
      intercepted_calls ?pre = take i (c # cs) \<and>
      (\<forall>j a. (j, a) \<in> set sched \<and> k \<le> j \<and> j \<le> k + int i \<longrightarrow> Approval_submitted a \<in> set ?pre) \<and>
      (\<forall>a. (k + int (length (c # cs)), a) \<in> set sched \<longrightarrow> Approval_submitted a \<in> set post)"
      by (rule exI [where x = post'])
    then show ?thesis
      by (rule exI [where x = ?pre])
  qed
qed

text \<open>
  C8. For any schedule and any adapter, the governed run is the run of the adapter over
  the specified order of delivery: before each call the approvals scheduled at its
  position in the trace (counted from zero), in the order in which the schedule lists
  them, and after the last call those scheduled at the number of calls. Each approval is
  passed to \<^verbatim>\<open>submit_approval\<close> and each call to \<^verbatim>\<open>intercept\<close> on the state of the adapter
  that the events before it left, so a call is evaluated by an adapter that has received
  the approvals ordered before it; the receipts printed are the ones \<^verbatim>\<open>intercept\<close>
  returned there, and the run ends at the first method that raises. In the specified
  order the events before the call at position \<open>i\<close> hold the \<open>i\<close> earlier calls and every
  approval scheduled at an index from \<open>0\<close> to \<open>i\<close>, the approvals scheduled at the number
  of calls come after every call, and an approval is in the order exactly when it is
  scheduled at an index from \<open>0\<close> to the number of calls.
\<close>

theorem scheduled_delivery_order:
  "adapter_view (replay_schedule A env sched calls ad) =
     adapter_run A ad (delivery_order sched 0 calls) \<and>
   prefix (log (replay_schedule A env sched calls ad)) (delivery_order sched 0 calls) \<and>
   (raised (replay_schedule A env sched calls ad) = None \<longrightarrow>
      log (replay_schedule A env sched calls ad) = delivery_order sched 0 calls) \<and>
   (\<forall>i < length calls. \<exists>pre post.
      delivery_order sched 0 calls = pre @ Call_intercepted (calls ! i) # post \<and>
      intercepted_calls pre = take i calls \<and>
      (\<forall>j a. (j, a) \<in> set sched \<and> 0 \<le> j \<and> j \<le> int i \<longrightarrow> Approval_submitted a \<in> set pre) \<and>
      (\<forall>a. (int (length calls), a) \<in> set sched \<longrightarrow> Approval_submitted a \<in> set post)) \<and>
   (\<forall>a. Approval_submitted a \<in> set (delivery_order sched 0 calls) \<longleftrightarrow>
      (\<exists>j. (j, a) \<in> set sched \<and> 0 \<le> j \<and> j \<le> int (length calls)))"
proof (intro conjI allI impI)
  show "adapter_view (replay_schedule A env sched calls ad) =
     adapter_run A ad (delivery_order sched 0 calls)"
    by (rule replay_schedule_view)
next
  show "prefix (log (replay_schedule A env sched calls ad)) (delivery_order sched 0 calls)"
    using replay_schedule_log [of A env sched calls ad] by (rule conjunct1)
next
  assume "raised (replay_schedule A env sched calls ad) = None"
  with replay_schedule_log [of A env sched calls ad]
  show "log (replay_schedule A env sched calls ad) = delivery_order sched 0 calls"
    by (elim conjE impE) assumption+
next
  fix i assume "i < length calls"
  then show "\<exists>pre post.
      delivery_order sched 0 calls = pre @ Call_intercepted (calls ! i) # post \<and>
      intercepted_calls pre = take i calls \<and>
      (\<forall>j a. (j, a) \<in> set sched \<and> 0 \<le> j \<and> j \<le> int i \<longrightarrow> Approval_submitted a \<in> set pre) \<and>
      (\<forall>a. (int (length calls), a) \<in> set sched \<longrightarrow> Approval_submitted a \<in> set post)"
    using delivery_order_split [of i calls sched 0] by (simp only: add_0)
next
  fix a
  show "Approval_submitted a \<in> set (delivery_order sched 0 calls) \<longleftrightarrow>
      (\<exists>j. (j, a) \<in> set sched \<and> 0 \<le> j \<and> j \<le> int (length calls))"
    using mem_delivery_order [of a sched 0 calls] by (simp only: add_0)
qed

theorem scheduled_delivery_order_witness:
  "raised (replay_schedule adapter_commit_all env0 schedule_example
             [call_fin_t2_pay, call_fin_t5_pay] []) = None \<and>
   log (replay_schedule adapter_commit_all env0 schedule_example
             [call_fin_t2_pay, call_fin_t5_pay] []) =
     [Approval_submitted approval_fin_t2_pay, Approval_submitted approval_hlth_t1_med,
      Call_intercepted call_fin_t2_pay,
      Approval_submitted approval_hlth_t1_med,
      Call_intercepted call_fin_t5_pay,
      Approval_submitted approval_fin_t2_pay] \<and>
   adapter_state (replay_schedule adapter_commit_all env0 schedule_example
             [call_fin_t2_pay, call_fin_t5_pay] []) =
     [approval_fin_t2_pay, approval_hlth_t1_med, approval_hlth_t1_med, approval_fin_t2_pay] \<and>
   map fst (printed (replay_schedule adapter_commit_all env0 schedule_example
             [call_fin_t2_pay, call_fin_t5_pay] [])) =
     [\<lparr>r_decision = F_COMMIT, status = ''success'', r_message = ''ok'', r_receipt = []\<rparr>,
      \<lparr>r_decision = F_COMMIT, status = ''success'', r_message = ''ok'', r_receipt = []\<rparr>]"
proof -
  let ?R = "replay_schedule adapter_commit_all env0 schedule_example
             [call_fin_t2_pay, call_fin_t5_pay] []"
  let ?rc = "\<lparr>r_decision = F_COMMIT, status = ''success'', r_message = ''ok'', r_receipt = []\<rparr>"
  have d: "delivery_order schedule_example 0 [call_fin_t2_pay, call_fin_t5_pay] =
     [Approval_submitted approval_fin_t2_pay, Approval_submitted approval_hlth_t1_med,
      Call_intercepted call_fin_t2_pay,
      Approval_submitted approval_hlth_t1_med,
      Call_intercepted call_fin_t5_pay,
      Approval_submitted approval_fin_t2_pay]"
    by (simp add: schedule_example_def due_def)
  have a: "adapter_run adapter_commit_all []
     [Approval_submitted approval_fin_t2_pay, Approval_submitted approval_hlth_t1_med,
      Call_intercepted call_fin_t2_pay,
      Approval_submitted approval_hlth_t1_med,
      Call_intercepted call_fin_t5_pay,
      Approval_submitted approval_fin_t2_pay] =
     ([Approval_submitted approval_fin_t2_pay, Approval_submitted approval_hlth_t1_med,
       Call_intercepted call_fin_t2_pay,
       Approval_submitted approval_hlth_t1_med,
       Call_intercepted call_fin_t5_pay,
       Approval_submitted approval_fin_t2_pay],
      [?rc, ?rc],
      [approval_fin_t2_pay, approval_hlth_t1_med, approval_hlth_t1_med, approval_fin_t2_pay],
      None)"
    by (simp add: adapter_commit_all_def)
  from scheduled_delivery_order [of adapter_commit_all env0 schedule_example
      "[call_fin_t2_pay, call_fin_t5_pay]" "[]"]
  have "adapter_view ?R =
      adapter_run adapter_commit_all [] (delivery_order schedule_example 0 [call_fin_t2_pay, call_fin_t5_pay])"
    by (rule conjunct1)
  then have "(log ?R, map fst (printed ?R), adapter_state ?R, raised ?R) =
     ([Approval_submitted approval_fin_t2_pay, Approval_submitted approval_hlth_t1_med,
       Call_intercepted call_fin_t2_pay,
       Approval_submitted approval_hlth_t1_med,
       Call_intercepted call_fin_t5_pay,
       Approval_submitted approval_fin_t2_pay],
      [?rc, ?rc],
      [approval_fin_t2_pay, approval_hlth_t1_med, approval_hlth_t1_med, approval_fin_t2_pay],
      None)"
    unfolding d a by (simp only: adapter_view_def)
  then show ?thesis by simp
qed

lemma deliver_after_zero: "deliver_after a = Inr 0"
  by (simp add: deliver_after_def dict_get_def Approval_dict_def)

lemma approvals_schedule_zero: "approvals_schedule as = Inr (map (Pair 0) as)"
  by (induction as) (simp_all add: deliver_after_zero)

lemma due_zero: "due (map (Pair 0) as) k = (if k = 0 then as else [])"
  by (cases "k = 0") (simp_all add: due_def filter_map comp_def)

lemma delivery_order_later:
  "0 < k \<Longrightarrow> delivery_order (map (Pair 0) as) k calls = map Call_intercepted calls"
  by (induction calls arbitrary: k) (simp_all add: due_zero)

lemma delivery_order_zero:
  "delivery_order (map (Pair 0) as) 0 calls =
     map Approval_submitted as @ map Call_intercepted calls"
  by (cases calls) (simp_all add: due_zero delivery_order_later)

lemma run_fintech_replay_schedule:
  "run_fintech_replay A env trace ad =
     replay_schedule A env (map (Pair 0) (approvals_timeline trace)) (f_tool_calls trace) ad"
  by (simp add: run_fintech_replay_def approvals_schedule_zero)

lemma call_after_approvals:
  assumes p: "prefix evs (map Approval_submitted as @ map Call_intercepted calls)"
    and c: "Call_intercepted c \<in> set evs"
  shows "prefix (map Approval_submitted as) evs"
proof -
  from p consider "prefix evs (map Approval_submitted as)"
    | us where "evs = map Approval_submitted as @ us"
    unfolding prefix_append by blast
  then show ?thesis
  proof cases
    case 1
    then have "set evs \<subseteq> set (map Approval_submitted as)"
      by (rule set_mono_prefix)
    with c show ?thesis by auto
  next
    case 2
    then show ?thesis by simp
  qed
qed

text \<open>
  C10. An \<^verbatim>\<open>Approval\<close> has no attribute \<^verbatim>\<open>deliver_after_step\<close>, so every approval of the
  timeline gets the index \<open>0\<close>, and the governed run is the run of the adapter over the
  approvals of the timeline, in order, followed by the calls. When no
  \<^verbatim>\<open>submit_approval\<close> raises, the adapter has received every approval, and the first call
  and those after it are intercepted from the state the last approval left, so no
  approval is deferred to a later step; when one raises, the run ends there and no call
  is intercepted. A run in which a call is intercepted has delivered every approval
  before it.
\<close>

theorem approvals_before_first_call:
  "approvals_schedule (approvals_timeline trace) = Inr (map (Pair 0) (approvals_timeline trace)) \<and>
   adapter_view (run_fintech_replay A env trace ad) =
     adapter_run A ad
       (map Approval_submitted (approvals_timeline trace) @ map Call_intercepted (f_tool_calls trace)) \<and>
   (adapter_run A ad (map Approval_submitted (approvals_timeline trace)) = (evs, rs, ad', None) \<longrightarrow>
      evs = map Approval_submitted (approvals_timeline trace) \<and> rs = [] \<and>
      adapter_view (run_fintech_replay A env trace ad) =
        (case adapter_run A ad' (map Call_intercepted (f_tool_calls trace)) of
           (evs2, rs2, ad2, err) \<Rightarrow>
             (map Approval_submitted (approvals_timeline trace) @ evs2, rs2, ad2, err))) \<and>
   (adapter_run A ad (map Approval_submitted (approvals_timeline trace)) = (evs, rs, ad', Some e) \<longrightarrow>
      adapter_view (run_fintech_replay A env trace ad) = (evs, [], ad', Some e) \<and>
      intercepted_calls (log (run_fintech_replay A env trace ad)) = []) \<and>
   prefix (log (run_fintech_replay A env trace ad))
     (map Approval_submitted (approvals_timeline trace) @ map Call_intercepted (f_tool_calls trace)) \<and>
   (\<forall>c. Call_intercepted c \<in> set (log (run_fintech_replay A env trace ad)) \<longrightarrow>
      prefix (map Approval_submitted (approvals_timeline trace)) (log (run_fintech_replay A env trace ad))) \<and>
   (raised (run_fintech_replay A env trace ad) = None \<longrightarrow>
      log (run_fintech_replay A env trace ad) =
        map Approval_submitted (approvals_timeline trace) @ map Call_intercepted (f_tool_calls trace))"
proof -
  let ?run = "run_fintech_replay A env trace ad"
  let ?as = "approvals_timeline trace"
  let ?calls = "f_tool_calls trace"
  note l = replay_schedule_log [of A env "map (Pair 0) ?as" ?calls ad]
  have v: "adapter_view ?run =
      adapter_run A ad (map Approval_submitted ?as @ map Call_intercepted ?calls)"
    using replay_schedule_view [of A env "map (Pair 0) ?as" ?calls ad]
    unfolding run_fintech_replay_schedule delivery_order_zero .
  have n: "evs = map Approval_submitted ?as \<and> rs = [] \<and>
      adapter_view ?run =
        (case adapter_run A ad' (map Call_intercepted ?calls) of
           (evs2, rs2, ad2, err) \<Rightarrow> (map Approval_submitted ?as @ evs2, rs2, ad2, err))"
    if h: "adapter_run A ad (map Approval_submitted ?as) = (evs, rs, ad', None)"
  proof -
    have "snd (snd (snd (adapter_run A ad (map Approval_submitted ?as)))) = None \<longrightarrow>
        fst (adapter_run A ad (map Approval_submitted ?as)) = map Approval_submitted ?as"
      using adapter_run_prefix [of A ad "map Approval_submitted ?as"] by (rule conjunct2)
    then have e: "evs = map Approval_submitted ?as"
      by (simp add: h)
    have r: "rs = []"
      using adapter_run_approvals [of A ad ?as] by (simp add: h)
    have "adapter_view ?run =
        (case adapter_run A ad' (map Call_intercepted ?calls) of
           (evs2, rs2, ad2, err) \<Rightarrow> (evs @ evs2, rs @ rs2, ad2, err))"
      unfolding v adapter_run_append h by (simp split: prod.splits)
    then have "adapter_view ?run =
        (case adapter_run A ad' (map Call_intercepted ?calls) of
           (evs2, rs2, ad2, err) \<Rightarrow> (map Approval_submitted ?as @ evs2, rs2, ad2, err))"
      unfolding e r by (simp split: prod.splits)
    with e r show ?thesis by (intro conjI)
  qed
  have m: "adapter_view ?run = (evs, [], ad', Some e) \<and> intercepted_calls (log ?run) = []"
    if h: "adapter_run A ad (map Approval_submitted ?as) = (evs, rs, ad', Some e)"
  proof -
    have r: "rs = []"
      using adapter_run_approvals [of A ad ?as] by (simp add: h)
    have w: "adapter_view ?run = (evs, [], ad', Some e)"
      unfolding v adapter_run_append h r by simp
    then have lg: "log ?run = evs"
      by (simp add: adapter_view_def)
    have "prefix (fst (adapter_run A ad (map Approval_submitted ?as))) (map Approval_submitted ?as)"
      using adapter_run_prefix [of A ad "map Approval_submitted ?as"] by (rule conjunct1)
    then have "prefix evs (map Approval_submitted ?as)"
      by (simp add: h)
    then obtain zs where z: "map Approval_submitted ?as = evs @ zs"
      by (rule prefixE)
    have "intercepted_calls (evs @ zs) = []"
      unfolding z [symmetric] by (rule intercepted_calls_approvals)
    then have "intercepted_calls evs = []"
      by (simp add: intercepted_calls_append)
    then have "intercepted_calls (log ?run) = []"
      unfolding lg .
    with w show ?thesis by (rule conjI)
  qed
  have p: "prefix (log ?run) (map Approval_submitted ?as @ map Call_intercepted ?calls)"
    using l unfolding run_fintech_replay_schedule delivery_order_zero by (rule conjunct1)
  have q: "raised ?run = None \<longrightarrow>
      log ?run = map Approval_submitted ?as @ map Call_intercepted ?calls"
    using l unfolding run_fintech_replay_schedule delivery_order_zero by (rule conjunct2)
  have b: "\<forall>c. Call_intercepted c \<in> set (log ?run) \<longrightarrow> prefix (map Approval_submitted ?as) (log ?run)"
    using call_after_approvals [OF p] by (intro allI impI)
  have n': "adapter_run A ad (map Approval_submitted ?as) = (evs, rs, ad', None) \<longrightarrow>
      evs = map Approval_submitted ?as \<and> rs = [] \<and>
      adapter_view ?run =
        (case adapter_run A ad' (map Call_intercepted ?calls) of
           (evs2, rs2, ad2, err) \<Rightarrow> (map Approval_submitted ?as @ evs2, rs2, ad2, err))"
    using n by (rule impI)
  have m': "adapter_run A ad (map Approval_submitted ?as) = (evs, rs, ad', Some e) \<longrightarrow>
      adapter_view ?run = (evs, [], ad', Some e) \<and> intercepted_calls (log ?run) = []"
    using m by (rule impI)
  show ?thesis
    by (intro conjI) (rule approvals_schedule_zero, rule v, rule n', rule m', rule p, rule b, rule q)
qed

theorem approvals_before_first_call_witness:
  "adapter_run adapter_commit_all [] (map Approval_submitted (approvals_timeline trace_example)) =
     ([Approval_submitted approval_fin_t2_pay, Approval_submitted approval_hlth_t1_med], [],
      [approval_fin_t2_pay, approval_hlth_t1_med], None) \<and>
   raised (run_fintech_replay adapter_commit_all env0 trace_example []) = None \<and>
   Call_intercepted call_fin_t2_pay \<in>
     set (log (run_fintech_replay adapter_commit_all env0 trace_example [])) \<and>
   log (run_fintech_replay adapter_commit_all env0 trace_example []) =
     [Approval_submitted approval_fin_t2_pay, Approval_submitted approval_hlth_t1_med,
      Call_intercepted call_fin_t2_pay, Call_intercepted call_fin_t5_pay] \<and>
   adapter_state (run_fintech_replay adapter_commit_all env0 trace_example []) =
     [approval_fin_t2_pay, approval_hlth_t1_med] \<and>
   map fst (printed (run_fintech_replay adapter_commit_all env0 trace_example [])) =
     [\<lparr>r_decision = F_COMMIT, status = ''success'', r_message = ''ok'', r_receipt = []\<rparr>,
      \<lparr>r_decision = F_COMMIT, status = ''success'', r_message = ''ok'', r_receipt = []\<rparr>]"
proof -
  let ?run = "run_fintech_replay adapter_commit_all env0 trace_example []"
  let ?rc = "\<lparr>r_decision = F_COMMIT, status = ''success'', r_message = ''ok'', r_receipt = []\<rparr>"
  have h: "adapter_run adapter_commit_all [] (map Approval_submitted (approvals_timeline trace_example)) =
     ([Approval_submitted approval_fin_t2_pay, Approval_submitted approval_hlth_t1_med], [],
      [approval_fin_t2_pay, approval_hlth_t1_med], None)"
    by (simp add: trace_example_def adapter_commit_all_def)
  have k: "adapter_run adapter_commit_all [approval_fin_t2_pay, approval_hlth_t1_med]
      (map Call_intercepted (f_tool_calls trace_example)) =
     ([Call_intercepted call_fin_t2_pay, Call_intercepted call_fin_t5_pay], [?rc, ?rc],
      [approval_fin_t2_pay, approval_hlth_t1_med], None)"
    by (simp add: trace_example_def adapter_commit_all_def)
  have t: "map Approval_submitted (approvals_timeline trace_example) =
      [Approval_submitted approval_fin_t2_pay, Approval_submitted approval_hlth_t1_med]"
    by (simp add: trace_example_def)
  note w = approvals_before_first_call [where trace = trace_example and A = adapter_commit_all
      and ad = "[]" and env = env0
      and evs = "[Approval_submitted approval_fin_t2_pay, Approval_submitted approval_hlth_t1_med]"
      and rs = "[]" and ad' = "[approval_fin_t2_pay, approval_hlth_t1_med]"]
  from w have "adapter_run adapter_commit_all []
        (map Approval_submitted (approvals_timeline trace_example)) =
      ([Approval_submitted approval_fin_t2_pay, Approval_submitted approval_hlth_t1_med], [],
       [approval_fin_t2_pay, approval_hlth_t1_med], None) \<longrightarrow>
      [Approval_submitted approval_fin_t2_pay, Approval_submitted approval_hlth_t1_med] =
        map Approval_submitted (approvals_timeline trace_example) \<and> [] = ([] :: NuvallaReceipt list) \<and>
      adapter_view ?run =
        (case adapter_run adapter_commit_all [approval_fin_t2_pay, approval_hlth_t1_med]
                (map Call_intercepted (f_tool_calls trace_example)) of
           (evs2, rs2, ad2, err) \<Rightarrow>
             (map Approval_submitted (approvals_timeline trace_example) @ evs2, rs2, ad2, err))"
    by (rule conjunct2 [THEN conjunct2, THEN conjunct1])
  from this h have "adapter_view ?run =
        (case adapter_run adapter_commit_all [approval_fin_t2_pay, approval_hlth_t1_med]
                (map Call_intercepted (f_tool_calls trace_example)) of
           (evs2, rs2, ad2, err) \<Rightarrow>
             (map Approval_submitted (approvals_timeline trace_example) @ evs2, rs2, ad2, err))"
    by (elim impE conjE) assumption+
  then have "(log ?run, map fst (printed ?run), adapter_state ?run, raised ?run) =
     ([Approval_submitted approval_fin_t2_pay, Approval_submitted approval_hlth_t1_med,
       Call_intercepted call_fin_t2_pay, Call_intercepted call_fin_t5_pay], [?rc, ?rc],
      [approval_fin_t2_pay, approval_hlth_t1_med], None)"
    unfolding k t adapter_view_def by (simp split: prod.splits)
  then have r: "raised ?run = None"
    and l: "log ?run =
     [Approval_submitted approval_fin_t2_pay, Approval_submitted approval_hlth_t1_med,
      Call_intercepted call_fin_t2_pay, Call_intercepted call_fin_t5_pay]"
    and a: "adapter_state ?run = [approval_fin_t2_pay, approval_hlth_t1_med]"
    and pr: "map fst (printed ?run) = [?rc, ?rc]"
    by simp_all
  have m: "Call_intercepted call_fin_t2_pay \<in> set (log ?run)"
    unfolding l by simp
  from h r m l a pr show ?thesis by (intro conjI)
qed

text \<open>The gate of \<^verbatim>\<open>FINTECH_ONLY.py\<close>: \<^verbatim>\<open>COMMIT\<close> with status \<^verbatim>\<open>success\<close>, nothing else.\<close>

lemma commit_if_allowed_closed:
  "\<not> (r_decision rcpt = F_COMMIT \<and> status rcpt = ''success'') \<Longrightarrow>
   commit_if_allowed d s call rcpt = (None, s)"
  by (auto simp add: commit_if_allowed_def)

lemma commit_if_allowed_open:
  "r_decision rcpt = F_COMMIT \<Longrightarrow> status rcpt = ''success'' \<Longrightarrow>
   fst (commit_if_allowed d s call rcpt) = Some (fst (execute d s call))"
  by (simp add: commit_if_allowed_def split: prod.splits)

end
